theory Spec2Isabelle
  imports Main
begin

section \<open>Python strings\<close>

text \<open>
  A Python \<open>str\<close> is modelled as a \<open>string\<close>; a character stands for a code point
  below 256. \<open>lower\<close> is \<open>str.lower\<close> on that range: the ASCII capitals and the
  Latin-1 capitals (all of 192..222 but the multiplication sign 215) move up by 32.
\<close>

definition char_lower :: "char \<Rightarrow> char" where
  "char_lower c =
     (let n = (of_char c :: nat) in
      if (65 \<le> n \<and> n \<le> 90) \<or> (192 \<le> n \<and> n \<le> 222 \<and> n \<noteq> 215)
      then char_of (n + 32) else c)"

definition lower :: "string \<Rightarrow> string" where
  "lower s = map char_lower s"

text \<open>\<open>sep.join(xs)\<close>.\<close>

fun join :: "string \<Rightarrow> string list \<Rightarrow> string" where
  "join sep [] = []"
| "join sep [x] = x"
| "join sep (x # y # ys) = x @ sep @ join sep (y # ys)"

text \<open>The f-string fragment \<open>'{s}'\<close>: the text between two apostrophes.\<close>

definition quoted :: "string \<Rightarrow> string" where
  "quoted s = [CHR 0x27] @ s @ [CHR 0x27]"

section \<open>Data frames\<close>

text \<open>
  A pandas DataFrame: the row labels (\<open>df.index\<close>) and the columns in order, each a
  label with its cells, one cell per row. Column labels may repeat, as pandas allows.
  The cell type is a parameter: the spectra are opaque to this repository's code.
\<close>

record 'c frame =
  index :: "int list"
  cols :: "(string \<times> 'c list) list"

definition columns :: "'c frame \<Rightarrow> string list" where
  "columns df = map fst (cols df)"

text \<open>\<open>len(df)\<close>: the number of rows.\<close>

definition len :: "'c frame \<Rightarrow> nat" where
  "len df = length (index df)"

text \<open>
  \<open>df.rename(columns=d)\<close> with a dict \<open>d\<close>: a new frame in which every column label
  that is a key of \<open>d\<close> is replaced by its value; data and index are kept.
\<close>

definition rename :: "(string \<times> string) list \<Rightarrow> 'c frame \<Rightarrow> 'c frame" where
  "rename d df =
     df\<lparr>cols := map (\<lambda>(c, xs). (case map_of d c of Some c' \<Rightarrow> c' | None \<Rightarrow> c, xs)) (cols df)\<rparr>"

section \<open>What the user sees\<close>

text \<open>
  The calls that leave the window's code, in the order the code makes them: a line
  of the log pane (\<open>log_message\<close>), the emptying of the log pane, the message boxes
  with their title and text, and \<open>threading.Thread(target=f).start()\<close>. The functions
  this repository hands to \<open>threading.Thread\<close> as \<open>target\<close> are one,
  \<open>self._process_data_thread\<close>.
\<close>

datatype target = Process_data_thread

datatype effect =
  Log string
| ShowError string string
| ShowWarning string string
| ShowInfo string string
| AskYesNo string string
| LogCleared
| ThreadStart target

text \<open>The effect that reports a success to the user: an information box.\<close>

fun reports_success :: "effect \<Rightarrow> bool" where
  "reports_success (ShowInfo title message) = True"
| "reports_success other = False"

section \<open>app.py: standardize_columns\<close>

text \<open>The dict \<open>column_mapping\<close>, in the order it is written.\<close>

definition column_mapping :: "(string \<times> string) list" where
  "column_mapping =
     [(''msms'', ''peaks''), (''ms/ms'', ''peaks''), (''peak'', ''peaks''),
      (''peaks'', ''peaks''), (''spectra'', ''peaks''), (''spectrum'', ''peaks''),
      (''smile'', ''smiles''), (''smiles'', ''smiles''),
      (''adduct'', ''adducts''), (''adducts'', ''adducts'')]"

text \<open>\<open>d[k] = v\<close> on a dict kept as an association list in insertion order.\<close>

fun dict_set :: "('k \<times> 'v) list \<Rightarrow> 'k \<Rightarrow> 'v \<Rightarrow> ('k \<times> 'v) list" where
  "dict_set [] k v = [(k, v)]"
| "dict_set ((k', v') # d) k v = (if k' = k then (k, v) # d else (k', v') # dict_set d k v)"

text \<open>
  The loop over \<open>df.columns\<close> that fills \<open>new_columns\<close> and logs every mapped column.
\<close>

fun new_columns_loop ::
  "string list \<Rightarrow> (string \<times> string) list \<Rightarrow> effect list \<Rightarrow> (string \<times> string) list \<times> effect list"
where
  "new_columns_loop [] new_columns out = (new_columns, out)"
| "new_columns_loop (col # rest) new_columns out =
     (let col_lower = lower col in
      case map_of column_mapping col_lower of
        Some std \<Rightarrow>
          new_columns_loop rest (dict_set new_columns col std)
            (out @ [Log (''Mapped column '' @ quoted col @ '' -> '' @ quoted std)])
      | None \<Rightarrow> new_columns_loop rest new_columns out)"

definition standardize_columns :: "'c frame \<Rightarrow> 'c frame \<times> effect list" where
  "standardize_columns df =
     (let (new_columns, out) = new_columns_loop (columns df) [] [] in
      if new_columns \<noteq> []
      then (rename new_columns df, out @ [Log ''Column standardization complete''])
      else (df, out @ [Log ''No column names needed standardization'']))"

text \<open>
  The specification's words, for comparison with the code: the name a column must have
  afterwards, from its lower-cased label.
\<close>

definition spec_standard_name :: "string \<Rightarrow> string" where
  "spec_standard_name col =
     (if lower col \<in> {''msms'', ''ms/ms'', ''peak'', ''peaks'', ''spectra'', ''spectrum''}
      then ''peaks''
      else if lower col \<in> {''smile'', ''smiles''} then ''smiles''
      else if lower col \<in> {''adduct'', ''adducts''} then ''adducts''
      else col)"

section \<open>Cells\<close>

text \<open>
  The cells of the columns this code reads (the comments and the SMILES) are
  scalars: the float NaN, \<open>None\<close>, a \<open>str\<close>, or an integer. \<open>isna\<close> is \<open>pd.isna\<close> on such
  a scalar and \<open>py_str\<close> is \<open>str\<close>.
\<close>

datatype cell = NaN | PyNone | Str string | Num int

fun isna :: "cell \<Rightarrow> bool" where
  "isna NaN = True"
| "isna PyNone = True"
| "isna (Str s) = False"
| "isna (Num n) = False"

text \<open>\<open>isinstance(c, str)\<close>.\<close>

fun isinstance_str :: "cell \<Rightarrow> bool" where
  "isinstance_str (Str s) = True"
| "isinstance_str c = False"

definition digit_char :: "nat \<Rightarrow> char" where
  "digit_char d = char_of (48 + d)"

fun str_nat :: "nat \<Rightarrow> string" where
  "str_nat n = (if n < 10 then [digit_char n] else str_nat (n div 10) @ [digit_char (n mod 10)])"

declare str_nat.simps [simp del]

definition str_int :: "int \<Rightarrow> string" where
  "str_int i = (if i < 0 then CHR ''-'' # str_nat (nat (- i)) else str_nat (nat i))"

fun py_str :: "cell \<Rightarrow> string" where
  "py_str NaN = ''nan''"
| "py_str PyNone = ''None''"
| "py_str (Str s) = s"
| "py_str (Num n) = str_int n"

section \<open>app.py: extract_smiles_from_comments\<close>

text \<open>
  \<open>re.search(lit + '([^"]+)', s)\<close> for a literal \<open>lit\<close> without metacharacters, giving
  group 1. At one start position the pattern matches when the literal stands there
  and at least one character other than the double quote follows; the greedy class
  then takes all of them up to the next double quote or the end. The search tries the
  start positions from left to right.
\<close>

definition match_at :: "string \<Rightarrow> string \<Rightarrow> string option" where
  "match_at lit s =
     (if take (length lit) s = lit
      then (let run = takeWhile (\<lambda>c. c \<noteq> CHR 0x22) (drop (length lit) s) in
            if run \<noteq> [] then Some run else None)
      else None)"

fun re_search :: "string \<Rightarrow> string \<Rightarrow> string option" where
  "re_search lit [] = match_at lit []"
| "re_search lit (c # cs) =
     (case match_at lit (c # cs) of Some g \<Rightarrow> Some g | None \<Rightarrow> re_search lit cs)"

text \<open>
  \<open>str.strip()\<close>: the white space of Python among the code points below 256 is
  9..13, 28..32, 133 and 160.
\<close>

definition is_space :: "char \<Rightarrow> bool" where
  "is_space c =
     (let n = (of_char c :: nat) in
      (9 \<le> n \<and> n \<le> 13) \<or> (28 \<le> n \<and> n \<le> 32) \<or> n = 133 \<or> n = 160)"

definition strip :: "string \<Rightarrow> string" where
  "strip s = rev (dropWhile is_space (rev (dropWhile is_space s)))"

text \<open>The result is Python's \<open>None\<close> (here \<open>None\<close>) or a \<open>str\<close>.\<close>

definition extract_smiles_from_comments :: "cell \<Rightarrow> string option" where
  "extract_smiles_from_comments c =
     (if isna c \<or> \<not> isinstance_str c then None
      else
        (let comments_str = py_str c in
         case re_search ''computed SMILES='' comments_str of
           Some g \<Rightarrow> Some (strip g)
         | None \<Rightarrow>
             (case re_search ''SMILES='' comments_str of
                Some g \<Rightarrow> Some (strip g)
              | None \<Rightarrow> None)))"

text \<open>
  The specification's words, for comparison with the code. The pattern for \<open>lit\<close>
  occurs at position \<open>i\<close> of \<open>s\<close> when \<open>lit\<close> stands there and is followed by a
  character that is not a double quote; its capture is the maximal run of such
  characters from there; the first occurrence is the least such position.
\<close>

definition spec_occurs_at :: "string \<Rightarrow> string \<Rightarrow> nat \<Rightarrow> bool" where
  "spec_occurs_at lit s i =
     (take (length lit) (drop i s) = lit \<and> i + length lit < length s \<and>
      s ! (i + length lit) \<noteq> CHR 0x22)"

definition spec_first_occurrence :: "string \<Rightarrow> string \<Rightarrow> nat option" where
  "spec_first_occurrence lit s = find (spec_occurs_at lit s) [0 ..< length s]"

definition spec_capture :: "string \<Rightarrow> string \<Rightarrow> nat \<Rightarrow> string" where
  "spec_capture lit s i = takeWhile (\<lambda>c. c \<noteq> CHR 0x22) (drop (i + length lit) s)"

definition spec_extract :: "string \<Rightarrow> string option" where
  "spec_extract s =
     (case spec_first_occurrence ''computed SMILES='' s of
        Some i \<Rightarrow> Some (strip (spec_capture ''computed SMILES='' s i))
      | None \<Rightarrow>
          (case spec_first_occurrence ''SMILES='' s of
             Some i \<Rightarrow> Some (strip (spec_capture ''SMILES='' s i))
           | None \<Rightarrow> None))"

section \<open>Exceptions\<close>

text \<open>
  A raised exception is a value: its class and \<open>str(e)\<close>. \<open>is_Exception\<close> is
  \<open>isinstance(e, Exception)\<close>, the test of an \<open>except Exception\<close> clause: the classes
  \<open>KeyboardInterrupt\<close>, \<open>SystemExit\<close> and \<open>GeneratorExit\<close> derive from \<open>BaseException\<close>
  only. The texts of the exceptions that pandas and Python raise are given as those
  libraries word them; no property below depends on them.
\<close>

datatype exn_class =
  KeyError | ValueError | IndexError | TypeError | AttributeError
| OtherException string
| KeyboardInterrupt | SystemExit | GeneratorExit

datatype exn = Raised exn_class string

fun is_Exception :: "exn \<Rightarrow> bool" where
  "is_Exception (Raised KeyboardInterrupt m) = False"
| "is_Exception (Raised SystemExit m) = False"
| "is_Exception (Raised GeneratorExit m) = False"
| "is_Exception (Raised c m) = True"

fun str_exn :: "exn \<Rightarrow> string" where
  "str_exn (Raised c m) = m"

section \<open>Selecting and assigning columns\<close>

text \<open>
  \<open>df[key]\<close> for a column label: \<open>KeyError\<close> when no column has the label, the column
  as a Series (with the frame's index) when exactly one has, and the frame of all
  columns with that label when several have.
\<close>

datatype 'c selection = Series "int list" "'c list" | SubFrame "'c frame"

definition getitem :: "'c frame \<Rightarrow> string \<Rightarrow> exn + 'c selection" where
  "getitem df key =
     (case filter (\<lambda>(c, xs). c = key) (cols df) of
        [] \<Rightarrow> Inl (Raised KeyError (quoted key))
      | [(c, xs)] \<Rightarrow> Inr (Series (index df) xs)
      | sub \<Rightarrow> Inr (SubFrame (df\<lparr>cols := sub\<rparr>)))"

text \<open>
  \<open>df[key] = values\<close> once the values are known to have one entry per row: every
  column labelled \<open>key\<close> takes the values, and when there is none a new last column
  is added.
\<close>

definition set_column :: "'c frame \<Rightarrow> string \<Rightarrow> 'c list \<Rightarrow> 'c frame" where
  "set_column df key vals =
     (if key \<in> set (columns df)
      then df\<lparr>cols := map (\<lambda>(c, xs). if c = key then (c, vals) else (c, xs)) (cols df)\<rparr>
      else df\<lparr>cols := cols df @ [(key, vals)]\<rparr>)"

section \<open>app.py: fill_missing_smiles\<close>

text \<open>The value of \<open>extract_smiles_from_comments\<close> as a cell of the new column.\<close>

definition extracted_cell :: "cell \<Rightarrow> cell" where
  "extracted_cell c = (case extract_smiles_from_comments c of Some s \<Rightarrow> Str s | None \<Rightarrow> PyNone)"

text \<open>
  \<open>df['comments'].apply(self.extract_smiles_from_comments)\<close> maps the function over
  the cells of a Series, and the Series assigned has the frame's own index. When
  several columns are labelled \<open>comments\<close> the selection is a frame, \<open>apply\<close> hands
  whole columns to the function, and line 84 raises \<open>ValueError\<close>: from \<open>if\<close> on a
  Series, or, in a frame without rows, from the assignment of a frame to one column.
  The frame is changed in place and returned; the model returns the new value.
\<close>

definition fill_missing_smiles :: "cell frame \<Rightarrow> effect list \<times> (exn + cell frame)" where
  "fill_missing_smiles df =
     (if ''smiles'' \<notin> set (columns df) \<and> ''comments'' \<in> set (columns df) then
        (let out = [Log ''SMILES column not found, attempting to extract from comments...''] in
         case getitem df ''comments'' of
           Inl e \<Rightarrow> (out, Inl e)
         | Inr (SubFrame sub) \<Rightarrow>
             (out, Inl (Raised ValueError
                (if len df = 0
                 then ''Cannot set a DataFrame with multiple columns to the single column smiles''
                 else ''The truth value of a Series is ambiguous. Use a.empty, a.bool(), a.item(), a.any() or a.all().'')))
         | Inr (Series idx xs) \<Rightarrow>
             (let df' = set_column df ''smiles'' (map extracted_cell xs);
                  valid_smiles = length (filter (\<lambda>c. \<not> isna c) (map extracted_cell xs));
                  total_rows = len df';
                  out = out @ [Log (''Extracted SMILES for '' @ str_nat valid_smiles @ ''/'' @
                                    str_nat total_rows @ '' entries from comments'')];
                  out = (if valid_smiles = 0
                         then out @ [Log ''Warning: No SMILES found in comments''] else out)
              in (out, Inr df')))
      else ([], Inr df))"

section \<open>app.py: validate_smiles\<close>

text \<open>
  Iterating a Series gives its cells; iterating a DataFrame (what \<open>df['smiles']\<close> is
  when several columns are labelled \<open>smiles\<close>) gives its column labels.
\<close>

definition iterate :: "cell selection \<Rightarrow> cell list" where
  "iterate sel = (case sel of Series idx xs \<Rightarrow> xs | SubFrame sub \<Rightarrow> map Str (columns sub))"

text \<open>
  The loop over \<open>enumerate(df['smiles'])\<close>. \<open>MolFromSmiles\<close> is RDKit's
  \<open>Chem.MolFromSmiles\<close>, a parameter: \<open>None\<close> is its \<open>None\<close>.
\<close>

fun invalid_loop ::
  "(string \<Rightarrow> 'm option) \<Rightarrow> nat \<Rightarrow> cell list \<Rightarrow> nat list \<Rightarrow> string list \<Rightarrow> nat list \<times> string list"
where
  "invalid_loop MolFromSmiles idx [] invalid_indices invalid_smiles =
     (invalid_indices, invalid_smiles)"
| "invalid_loop MolFromSmiles idx (smiles # rest) invalid_indices invalid_smiles =
     (if isna smiles
      then invalid_loop MolFromSmiles (Suc idx) rest
             (invalid_indices @ [idx]) (invalid_smiles @ [''(missing)''])
      else if MolFromSmiles (py_str smiles) = None
      then invalid_loop MolFromSmiles (Suc idx) rest
             (invalid_indices @ [idx]) (invalid_smiles @ [py_str smiles])
      else invalid_loop MolFromSmiles (Suc idx) rest invalid_indices invalid_smiles)"

text \<open>
  \<open>df.index[positions]\<close>: the labels at the positions, \<open>IndexError\<close> when a position
  is past the end.
\<close>

definition index_take :: "int list \<Rightarrow> nat list \<Rightarrow> exn + int list" where
  "index_take idx positions =
     (case filter (\<lambda>p. length idx \<le> p) positions of
        [] \<Rightarrow> Inr (map (\<lambda>p. idx ! p) positions)
      | p # ps \<Rightarrow>
          Inl (Raised IndexError
            (''index '' @ str_nat p @ '' is out of bounds for axis 0 with size '' @
             str_nat (length idx))))"

text \<open>
  \<open>df.drop(labels)\<close> for labels taken from the index: the rows whose label is none of
  \<open>labels\<close> are kept. \<open>df.reset_index(drop=True)\<close> numbers the rows from 0.
\<close>

definition keep_rows :: "int list \<Rightarrow> int list \<Rightarrow> 'a list \<Rightarrow> 'a list" where
  "keep_rows idx labels xs = map snd (filter (\<lambda>(l, x). l \<notin> set labels) (zip idx xs))"

definition drop_rows :: "'c frame \<Rightarrow> int list \<Rightarrow> 'c frame" where
  "drop_rows df labels =
     df\<lparr>index := keep_rows (index df) labels (index df),
        cols := map (\<lambda>(c, xs). (c, keep_rows (index df) labels xs)) (cols df)\<rparr>"

definition reset_index :: "'c frame \<Rightarrow> 'c frame" where
  "reset_index df = df\<lparr>index := map int [0 ..< len df]\<rparr>"

text \<open>
  \<open>response\<close> is the user's answer to \<open>messagebox.askyesno\<close>, should the dialog be
  shown. The result \<open>None\<close> is Python's \<open>None\<close>.
\<close>

definition validate_smiles ::
  "(string \<Rightarrow> 'm option) \<Rightarrow> bool \<Rightarrow> cell frame \<Rightarrow> effect list \<times> (exn + cell frame option)"
where
  "validate_smiles MolFromSmiles response df =
     (if ''smiles'' \<notin> set (columns df) then ([], Inr (Some df))
      else
        (let out = [Log ''Validating SMILES structures...''] in
         case getitem df ''smiles'' of
           Inl e \<Rightarrow> (out, Inl e)
         | Inr sel \<Rightarrow>
            (let (invalid_indices, invalid_smiles) =
                   invalid_loop MolFromSmiles 0 (iterate sel) [] [];
                 total = int (len df);
                 invalid_count = int (length invalid_indices);
                 valid_count = total - invalid_count;
                 out = out @ [Log (''SMILES validation: '' @ str_int valid_count @ ''/'' @
                          str_int total @ '' valid, '' @ str_int invalid_count @ '' invalid'')]
             in
             if invalid_count > 0 then
               (let examples = take 5 invalid_smiles;
                    example_str = join '', '' (map quoted examples);
                    example_str =
                      (if invalid_count > 5
                       then example_str @ '' ... and '' @ str_int (invalid_count - 5) @ '' more''
                       else example_str);
                    out = out @ [Log (''Invalid SMILES examples: '' @ example_str)];
                    out = out @ [AskYesNo ''Invalid SMILES Detected''
                      (''Found '' @ str_int invalid_count @ '' invalid SMILES out of '' @
                       str_int total @ '' entries.'' @ [CHR 0x0A, CHR 0x0A] @
                       ''Examples: '' @ example_str @ [CHR 0x0A, CHR 0x0A] @
                       ''Do you want to continue anyway?'' @ [CHR 0x0A] @
                       ''(Invalid entries will be removed from processing)'')]
                in
                if \<not> response then (out, Inr None)
                else
                  (case index_take (index df) invalid_indices of
                     Inl e \<Rightarrow> (out, Inl e)
                   | Inr labels \<Rightarrow>
                      (let df' = reset_index (drop_rows df labels);
                           out = out @
                             [Log (''Dropped '' @ str_int invalid_count @
                                   '' rows with invalid SMILES''),
                              Log (''Remaining rows: '' @ str_nat (len df'))]
                       in (out, Inr (Some df')))))
             else (out, Inr (Some df)))))"

text \<open>
  The specification's words on \<open>validate_smiles\<close>, for comparison with the code: a
  SMILES cell is valid when it is not missing and RDKit gives a molecule for it.
\<close>

definition spec_valid :: "(string \<Rightarrow> 'm option) \<Rightarrow> cell \<Rightarrow> bool" where
  "spec_valid MolFromSmiles c = (\<not> isna c \<and> MolFromSmiles (py_str c) \<noteq> None)"

section \<open>pipeline.py: denoising_pipeline\<close>

text \<open>
  \<open>df[key] = values\<close> for a list of values. A frame with rows takes a list with one
  entry per row and raises \<open>ValueError\<close> for any other; a frame without rows takes
  the rows of a non-empty list: its index becomes \<open>0 .. len(values) - 1\<close> and its
  other columns are filled with NaN (\<open>nan\<close>, in the cell type at hand).
\<close>

definition setitem_list :: "'c \<Rightarrow> 'c frame \<Rightarrow> string \<Rightarrow> 'c list \<Rightarrow> exn + 'c frame" where
  "setitem_list nan df key vals =
     (if len df = 0 \<and> vals \<noteq> [] then
        Inr (set_column
          (df\<lparr>index := map int [0 ..< length vals],
              cols := map (\<lambda>(c, xs). (c, replicate (length vals) nan)) (cols df)\<rparr>) key vals)
      else if length vals \<noteq> len df then
        Inl (Raised ValueError
          (''Length of values ('' @ str_nat (length vals) @
           '') does not match length of index ('' @ str_nat (len df) @ '')''))
      else Inr (set_column df key vals))"

text \<open>
  The frames live in a store, a list of objects addressed by position, since the
  function changes its argument and returns another object: \<open>a\<close> is the address of
  \<open>input_df\<close>, \<open>input_df.copy()\<close> allocates the next free address, and the result is
  the store afterwards with the address returned or the exception raised.
  \<open>spectral_denoising_batch\<close> is the external library's function, a parameter that
  returns a list or raises; \<open>mass_error\<close> is passed on untouched.
\<close>

definition lower_columns :: "'c frame \<Rightarrow> 'c frame" where
  "lower_columns df = df\<lparr>cols := map (\<lambda>(col, xs). (lower col, xs)) (cols df)\<rparr>"

definition denoising_pipeline ::
  "('c selection \<Rightarrow> 'c selection \<Rightarrow> 'c selection \<Rightarrow> 't \<Rightarrow> exn + 'c list) \<Rightarrow> 'c \<Rightarrow>
   'c frame list \<Rightarrow> nat \<Rightarrow> 't \<Rightarrow> 'c frame list \<times> (exn + nat)"
where
  "denoising_pipeline spectral_denoising_batch nan store a mass_error =
     (let store = store[a := lower_columns (store ! a)];
          input_df = store ! a in
      case getitem input_df ''peaks'' of
        Inl e \<Rightarrow> (store, Inl e)
      | Inr peaks \<Rightarrow>
     (case getitem input_df ''smiles'' of
        Inl e \<Rightarrow> (store, Inl e)
      | Inr smiles \<Rightarrow>
     (case getitem input_df ''adducts'' of
        Inl e \<Rightarrow> (store, Inl e)
      | Inr adducts \<Rightarrow>
     (case spectral_denoising_batch peaks smiles adducts mass_error of
        Inl e \<Rightarrow> (store, Inl e)
      | Inr denoised_peaks \<Rightarrow>
         (let output_df = length store;
              store = store @ [input_df] in
          case setitem_list nan (store ! output_df) ''denoised_peaks'' denoised_peaks of
            Inl e \<Rightarrow> (store, Inl e)
          | Inr df' \<Rightarrow> (store[output_df := df'], Inr output_df))))))"

section \<open>app.py: the window and its handlers\<close>

text \<open>
  The fields of \<open>SpectralDenoisingGUI\<close> that the handlers below read or write. A Tk
  variable is the value it holds; \<open>loaded_data\<close> and \<open>results\<close> hold a frame or
  \<open>None\<close>; \<open>trace\<close> is what the user has been shown so far, oldest first.
\<close>

record gui =
  input_file_path :: string
  output_file_path :: string
  file_type :: string
  loaded_data :: "cell frame option"
  results :: "cell frame option"
  progress_value :: nat
  progress_label :: string
  trace :: "effect list"

text \<open>
  What the handlers call outside this repository, as parameters: the file system, the
  readers and writers of the external library (a reader gives a frame or \<open>None\<close>, or
  raises; a writer raises or not), RDKit, the user's answer to the yes/no dialog, the
  read of the mass tolerance field (which raises on text that is no number) and its
  text as a float, and the batch function. \<open>'t\<close> is the type of floats.
\<close>

record ('m, 't) env =
  os_path_exists :: "string \<Rightarrow> bool"
  file_io_read_msp :: "string \<Rightarrow> exn + cell frame option"
  file_io_read_df :: "string \<Rightarrow> exn + cell frame option"
  file_io_save_df :: "cell frame \<Rightarrow> string \<Rightarrow> exn option"
  file_io_write_to_msp :: "cell frame \<Rightarrow> string \<Rightarrow> exn option"
  Chem_MolFromSmiles :: "string \<Rightarrow> 'm option"
  messagebox_askyesno :: bool
  mass_tolerance_get :: "exn + 't"
  str_float :: "'t \<Rightarrow> string"
  batch :: "cell selection \<Rightarrow> cell selection \<Rightarrow> cell selection \<Rightarrow> 't \<Rightarrow> exn + cell list"

definition emit :: "effect list \<Rightarrow> gui \<Rightarrow> gui" where
  "emit out s = s\<lparr>trace := trace s @ out\<rparr>"

definition log_message :: "string \<Rightarrow> gui \<Rightarrow> gui" where
  "log_message message s = emit [Log message] s"

text \<open>How a block of statements ends: it raises, it returns from the function, or
  control falls through to the next statement.\<close>

datatype flow = Raises exn | Returns | Falls

text \<open>\<open>len(self.loaded_data)\<close>.\<close>

definition py_len :: "cell frame option \<Rightarrow> exn + nat" where
  "py_len v =
     (case v of
        None \<Rightarrow> Inl (Raised TypeError (''object of type '' @ quoted ''NoneType'' @ '' has no len()''))
      | Some df \<Rightarrow> Inr (len df))"

text \<open>\<open>repr\<close> of a list of the required column names.\<close>

definition repr_list :: "string list \<Rightarrow> string" where
  "repr_list xs = ''['' @ join '', '' (map quoted xs) @ '']''"

subsection \<open>load_file\<close>

text \<open>Lines 338 to 343: the file is read and the count logged.\<close>

definition load_file_read :: "('m, 't) env \<Rightarrow> gui \<Rightarrow> gui \<times> flow" where
  "load_file_read w s =
     (let file_path = input_file_path s in
      if file_type s = ''msp'' then
        (case file_io_read_msp w file_path of
           Inl e \<Rightarrow> (s, Raises e)
         | Inr v \<Rightarrow>
            (let s = s\<lparr>loaded_data := v\<rparr> in
             case py_len v of
               Inl e \<Rightarrow> (s, Raises e)
             | Inr n \<Rightarrow>
                (log_message (''Successfully loaded MSP file with '' @ str_nat n @ '' spectra'') s,
                 Falls)))
      else if file_type s = ''csv'' then
        (case file_io_read_df w file_path of
           Inl e \<Rightarrow> (s, Raises e)
         | Inr v \<Rightarrow>
            (let s = s\<lparr>loaded_data := v\<rparr> in
             case py_len v of
               Inl e \<Rightarrow> (s, Raises e)
             | Inr n \<Rightarrow>
                (log_message (''Successfully loaded CSV file with '' @ str_nat n @ '' rows'') s,
                 Falls)))
      else (s, Falls))"

definition required_columns :: "string list" where
  "required_columns = [''peaks'', ''smiles'', ''adducts'']"

text \<open>Lines 358 to 372: the check of the required columns on the frame \<open>df\<close> that
  \<open>loaded_data\<close> holds.\<close>

definition load_file_required :: "cell frame \<Rightarrow> gui \<Rightarrow> gui \<times> flow" where
  "load_file_required df s =
     (let missing_columns = filter (\<lambda>col. col \<notin> set (columns df)) required_columns in
      if missing_columns \<noteq> [] then
        (let error_msg = ''Missing required columns: '' @ join '', '' missing_columns @
                         [CHR 0x0A, CHR 0x0A];
             error_msg = error_msg @ ''Available columns: '' @ join '', '' (columns df) @
                         [CHR 0x0A, CHR 0x0A];
             error_msg = error_msg @ ''Please select a file with '' @ quoted ''peaks'' @ '', '' @
                         quoted ''smiles'' @ '', and '' @ quoted ''adducts'' @ '' columns.'';
             s = log_message (''Validation failed: Missing columns '' @ repr_list missing_columns) s;
             s = s\<lparr>loaded_data := None\<rparr>;
             s = emit [ShowError ''Invalid File Format'' error_msg] s
         in (s, Returns))
      else (log_message (''Total spectra loaded: '' @ str_nat (len df)) s, Falls))"

text \<open>Lines 346 to 372: the block under \<open>isinstance(self.loaded_data, pd.DataFrame)\<close>.\<close>

definition load_file_frame :: "('m, 't) env \<Rightarrow> gui \<Rightarrow> gui \<times> flow" where
  "load_file_frame w s =
     (case loaded_data s of
        None \<Rightarrow> (s, Falls)
      | Some df \<Rightarrow>
         (let (df, out) = standardize_columns df;
              s = (emit out s)\<lparr>loaded_data := Some df\<rparr>;
              (out, r) = fill_missing_smiles df;
              s = emit out s
          in case r of
               Inl e \<Rightarrow> (s, Raises e)
             | Inr df \<Rightarrow>
                (let s = s\<lparr>loaded_data := Some df\<rparr>;
                     (out, r) = validate_smiles (Chem_MolFromSmiles w) (messagebox_askyesno w) df;
                     s = emit out s
                 in case r of
                      Inl e \<Rightarrow> (s, Raises e)
                    | Inr None \<Rightarrow>
                       (log_message ''Data loading cancelled by user due to invalid SMILES''
                          (s\<lparr>loaded_data := None\<rparr>),
                        Returns)
                    | Inr (Some df) \<Rightarrow> load_file_required df (s\<lparr>loaded_data := Some df\<rparr>))))"

text \<open>The body of the \<open>try\<close>, lines 336 to 374.\<close>

definition load_file_try :: "('m, 't) env \<Rightarrow> gui \<Rightarrow> gui \<times> flow" where
  "load_file_try w s =
     (let s = log_message (''Loading file: '' @ input_file_path s) s in
      case load_file_read w s of
        (s, Falls) \<Rightarrow>
          (case load_file_frame w s of
             (s, Falls) \<Rightarrow>
               (case py_len (loaded_data s) of
                  Inl e \<Rightarrow> (s, Raises e)
                | Inr n \<Rightarrow>
                   (emit [ShowInfo ''Success''
                      (''File loaded!'' @ [CHR 0x0A] @ '' Total spectra loaded: '' @ str_nat n)] s,
                    Falls))
           | (s, fl) \<Rightarrow> (s, fl))
      | (s, fl) \<Rightarrow> (s, fl))"

text \<open>The clause \<open>except Exception as e\<close>, lines 376 to 378.\<close>

definition load_file_except :: "exn \<Rightarrow> gui \<Rightarrow> gui" where
  "load_file_except e s =
     emit [ShowError ''Error'' (''Failed to load file:'' @ [CHR 0x0A] @ str_exn e)]
       (log_message (''Error loading file: '' @ str_exn e) s)"

text \<open>
  The handler: the state afterwards, and the exception that leaves the function
  (\<open>None\<close> when it returns).
\<close>

definition load_file :: "('m, 't) env \<Rightarrow> gui \<Rightarrow> gui \<times> exn option" where
  "load_file w s =
     (let file_path = input_file_path s in
      if file_path = [] then (emit [ShowError ''Error'' ''Please select an input file''] s, None)
      else if \<not> os_path_exists w file_path
      then (emit [ShowError ''Error'' ''File does not exist''] s, None)
      else
        (case load_file_try w s of
           (s, Raises e) \<Rightarrow>
             if is_Exception e then (load_file_except e s, None) else (s, Some e)
         | (s, fl) \<Rightarrow> (s, None)))"

subsection \<open>process_data and its thread\<close>

text \<open>\<open>s.endswith(suffix)\<close>.\<close>

definition endswith :: "string \<Rightarrow> string \<Rightarrow> bool" where
  "endswith s suffix =
     (length suffix \<le> length s \<and> drop (length s - length suffix) s = suffix)"

text \<open>
  The body of the \<open>try\<close> of \<open>_process_data_thread\<close>, lines 398 to 426. The call of
  \<open>denoising_pipeline\<close> runs on a store that holds the loaded frame at address 0; the
  frame at that address afterwards is what \<open>loaded_data\<close> refers to.
\<close>

definition process_data_thread_try :: "('m, 't) env \<Rightarrow> gui \<Rightarrow> gui \<times> flow" where
  "process_data_thread_try w s =
     (let s = s\<lparr>progress_value := 0\<rparr>;
          s = s\<lparr>progress_label := ''0%''\<rparr>;
          s = log_message ''Starting data processing...'' s
      in case mass_tolerance_get w of
           Inl e \<Rightarrow> (s, Raises e)
         | Inr mass_tol \<Rightarrow>
      (let s = log_message (''Using mass tolerance: '' @ str_float w mass_tol) s
       in case loaded_data s of
            None \<Rightarrow>
              (s, Raises (Raised AttributeError
                 (quoted ''NoneType'' @ '' object has no attribute '' @ quoted ''columns'')))
          | Some df \<Rightarrow>
      (let (store, r) = denoising_pipeline (batch w) NaN [df] 0 mass_tol;
           s = s\<lparr>loaded_data := Some (store ! 0)\<rparr>
       in case r of
            Inl e \<Rightarrow> (s, Raises e)
          | Inr b \<Rightarrow>
      (let s = s\<lparr>results := Some (store ! b)\<rparr>;
           output_path = output_file_path s;
           (s, fl) =
             (if endswith output_path ''.csv'' then
                (case file_io_save_df w (store ! b) output_path of
                   Some e \<Rightarrow> (s, Raises e)
                 | None \<Rightarrow> (log_message (''Saved results to: '' @ output_path) s, Falls))
              else
                (case file_io_write_to_msp w (store ! b) output_path of
                   Some e \<Rightarrow> (s, Raises e)
                 | None \<Rightarrow> (s, Falls)))
       in case fl of
            Falls \<Rightarrow>
              (let s = s\<lparr>progress_value := 100\<rparr>;
                   s = s\<lparr>progress_label := ''100%''\<rparr>;
                   s = log_message ''Processing completed successfully!'' s;
                   s = emit [ShowInfo ''Success'' ''Data processing completed!''] s
               in (s, Falls))
          | fl \<Rightarrow> (s, fl)))))"

text \<open>The clause \<open>except Exception as e\<close>, lines 428 to 432.\<close>

definition process_data_thread_except :: "exn \<Rightarrow> gui \<Rightarrow> gui" where
  "process_data_thread_except e s =
     (let s = s\<lparr>progress_value := 0\<rparr>;
          s = s\<lparr>progress_label := ''Error''\<rparr>;
          s = log_message (''Error during processing: '' @ str_exn e) s
      in emit [ShowError ''Error'' (''Processing failed:'' @ [CHR 0x0A] @ str_exn e)] s)"

definition process_data_thread :: "('m, 't) env \<Rightarrow> gui \<Rightarrow> gui \<times> exn option" where
  "process_data_thread w s =
     (case process_data_thread_try w s of
        (s, Raises e) \<Rightarrow>
          if is_Exception e then (process_data_thread_except e s, None) else (s, Some e)
      | (s, fl) \<Rightarrow> (s, None))"

text \<open>The call of a thread's target.\<close>

fun run_target :: "('m, 't) env \<Rightarrow> target \<Rightarrow> gui \<Rightarrow> gui \<times> exn option" where
  "run_target w Process_data_thread s = process_data_thread w s"

text \<open>
  \<open>process_data\<close>, lines 381 to 393. The thread object is a local variable: no field
  of the window holds it.
\<close>

definition process_data :: "gui \<Rightarrow> gui" where
  "process_data s =
     (if loaded_data s = None then emit [ShowError ''Error'' ''Please load a file first''] s
      else if output_file_path s = [] then emit [ShowWarning ''Warning'' ''No output path specified''] s
      else emit [ThreadStart Process_data_thread] s)"

subsection \<open>The other handlers\<close>

text \<open>
  \<open>browse_input_file\<close> and \<open>browse_output_file\<close>; \<open>filename\<close> is what the file dialog
  returns, the empty string when the user cancels.
\<close>

definition browse_input_file :: "string \<Rightarrow> gui \<Rightarrow> gui" where
  "browse_input_file filename s =
     (if filename \<noteq> [] then
        (let s = s\<lparr>input_file_path := filename\<rparr> in
         if endswith filename ''.msp'' then s\<lparr>file_type := ''msp''\<rparr>
         else if endswith filename ''.csv'' then s\<lparr>file_type := ''csv''\<rparr>
         else s)
      else s)"

definition browse_output_file :: "string \<Rightarrow> gui \<Rightarrow> gui" where
  "browse_output_file filename s =
     (if filename \<noteq> [] then s\<lparr>output_file_path := filename\<rparr> else s)"

text \<open>
  \<open>on_mass_mode_change\<close>; \<open>mode\<close> is the value of the radio buttons' variable. The
  tolerance field and the state of its entry belong to the world (\<open>mass_tolerance_get\<close>
  is what a read of the field gives), so of this handler the window keeps the log
  line; the read in the custom mode is outside any \<open>try\<close>.
\<close>

definition on_mass_mode_change :: "('m, 't) env \<Rightarrow> string \<Rightarrow> gui \<Rightarrow> gui \<times> exn option" where
  "on_mass_mode_change w mode s =
     (if mode = ''orbitrap''
      then (log_message ''Mass tolerance set to: 0.005 Da (Orbitrap)'' s, None)
      else if mode = ''tof''
      then (log_message ''Mass tolerance set to: 0.01 Da (ToF)'' s, None)
      else
        (case mass_tolerance_get w of
           Inl e \<Rightarrow> (s, Some e)
         | Inr v \<Rightarrow>
            (log_message (''Mass tolerance mode: Custom (current value: '' @ str_float w v @
                          '' Da)'') s, None)))"

definition clear_all :: "gui \<Rightarrow> gui" where
  "clear_all s =
     (let s = s\<lparr>input_file_path := []\<rparr>;
          s = s\<lparr>output_file_path := []\<rparr>;
          s = s\<lparr>loaded_data := None\<rparr>;
          s = emit [LogCleared] s
      in log_message ''Cleared all data'' s)"

subsection \<open>The running application\<close>

text \<open>
  The application is the window and the threads started so far, in the order of
  their start; a thread is alive until its target has returned or raised, and then
  done, with the exception that left the target, if any.

  An event is a command of a widget (the two browse buttons with the dialog's answer,
  Load File, a radio button of the mass mode with its value, Process Data, Clear),
  an edit of a widget that is bound to a variable and has no command (the radio
  buttons of the file type, the entries of the two paths), or the run of a started
  thread, whose body is taken as one step. The Exit button is bound to Tk's
  \<open>root.quit\<close>, which ends the event loop: a run is the events before it. Each event
  comes with the world as it is then. An exception that leaves a command ends that
  command only (Tk reports it), so the window is kept as the command left it. Whatever code
  an event runs, command or thread body, every \<open>start()\<close> it has called has started a
  thread: \<open>started\<close> lists the targets of the starts in a trace, and the starts of a
  step are those its trace has more than the trace before.
\<close>

fun started :: "effect list \<Rightarrow> target list" where
  "started [] = []"
| "started (ThreadStart tg # es) = tg # started es"
| "started (e # es) = started es"

datatype thread_status = Alive | Done "exn option"

record thread =
  target :: target
  status :: thread_status

record app =
  window :: gui
  threads :: "thread list"

datatype event =
  Select_file_type string
| Type_input_path string
| Type_output_path string
| Browse_input string
| Browse_output string
| Click_load_file
| Select_mass_mode string
| Click_process_data
| Click_clear_all
| Thread_runs nat

definition new_threads :: "gui \<Rightarrow> gui \<Rightarrow> thread list" where
  "new_threads s s' =
     map (\<lambda>tg. \<lparr>target = tg, status = Alive\<rparr>)
       (drop (length (started (trace s))) (started (trace s')))"

definition app_step :: "('m, 't) env \<Rightarrow> event \<Rightarrow> app \<Rightarrow> app" where
  "app_step w ev a =
     (let s = window a;
          (s', ths) =
            (case ev of
               Select_file_type v \<Rightarrow> (s\<lparr>file_type := v\<rparr>, threads a)
             | Type_input_path v \<Rightarrow> (s\<lparr>input_file_path := v\<rparr>, threads a)
             | Type_output_path v \<Rightarrow> (s\<lparr>output_file_path := v\<rparr>, threads a)
             | Browse_input filename \<Rightarrow> (browse_input_file filename s, threads a)
             | Browse_output filename \<Rightarrow> (browse_output_file filename s, threads a)
             | Click_load_file \<Rightarrow> (fst (load_file w s), threads a)
             | Select_mass_mode mode \<Rightarrow> (fst (on_mass_mode_change w mode s), threads a)
             | Click_process_data \<Rightarrow> (process_data s, threads a)
             | Click_clear_all \<Rightarrow> (clear_all s, threads a)
             | Thread_runs i \<Rightarrow>
                 (if i < length (threads a) \<and> status (threads a ! i) = Alive then
                    (case run_target w (target (threads a ! i)) s of
                       (s', x) \<Rightarrow> (s', (threads a)[i := (threads a ! i)\<lparr>status := Done x\<rparr>]))
                  else (s, threads a)))
      in a\<lparr>window := s', threads := ths @ new_threads s s'\<rparr>)"

fun run :: "(('m, 't) env \<times> event) list \<Rightarrow> app \<Rightarrow> app" where
  "run [] a = a"
| "run ((w, ev) # rest) a = run rest (app_step w ev a)"



section \<open>spectra_plotter.py: the guard of head_to_tail_plot\<close>

text \<open>
  The values the arguments \<open>msms1\<close> and \<open>msms2\<close> can be bound to, as far as lines 80 to
  88 tell them apart: the type object \<open>float\<close> itself, a float, a string, an array of
  peaks, \<open>None\<close>. \<open>x is float\<close> is identity with the type object, which only the type
  object has. \<open>'f\<close> is the type of floats.
\<close>

datatype 'f pyobj =
  FloatType
| FloatVal 'f
| StrVal string
| ArrayVal "('f \<times> 'f) list"
| NoneVal

definition is_float_type :: "'f pyobj \<Rightarrow> bool" where
  "is_float_type x = (case x of FloatType \<Rightarrow> True | _ \<Rightarrow> False)"

text \<open>
  Lines 80 to 84. \<open>float(pmz)\<close> on a string is a parameter, which raises on text that
  is no number. The outcome says whether the function has raised, has returned 0 at
  line 84, or goes on to line 85.
\<close>

datatype plot_flow = PlotRaises exn | Return0 | GoesOn

definition head_to_tail_plot_guard ::
  "(string \<Rightarrow> exn + 'f) \<Rightarrow> 'f pyobj \<Rightarrow> 'f pyobj \<Rightarrow> 'f pyobj \<Rightarrow> plot_flow" where
  "head_to_tail_plot_guard py_float msms1 msms2 pmz =
     (case (case pmz of StrVal t \<Rightarrow> map_sum id FloatVal (py_float t) | other \<Rightarrow> Inr other) of
        Inl e \<Rightarrow> PlotRaises e
      | Inr pmz \<Rightarrow> if is_float_type msms1 \<or> is_float_type msms2 then Return0 else GoesOn)"

section \<open>Example inputs\<close>

text \<open>
  A world in which every file exists, the CSV reader gives a one-row frame with the
  columns \<open>MSMS\<close> and \<open>SMILES\<close> (and none for the adducts), the MSP reader is
  interrupted from the keyboard, RDKit accepts only \<open>CCO\<close>, and the user answers yes;
  and a window in which a CSV file has been chosen.
\<close>

definition example_frame :: "cell frame" where
  "example_frame = \<lparr>index = [0], cols = [(''MSMS'', [Str ''p'']), (''SMILES'', [Str ''CCO''])]\<rparr>"

definition example_env :: "(unit, unit) env" where
  "example_env =
     \<lparr>os_path_exists = (\<lambda>p. True),
      file_io_read_msp = (\<lambda>p. Inl (Raised KeyboardInterrupt [])),
      file_io_read_df = (\<lambda>p. Inr (Some example_frame)),
      file_io_save_df = (\<lambda>df p. Some (Raised (OtherException ''PermissionError'') ''denied'')),
      file_io_write_to_msp = (\<lambda>df p. None),
      Chem_MolFromSmiles = (\<lambda>t. if t = ''CCO'' then Some () else None),
      messagebox_askyesno = True,
      mass_tolerance_get = Inr (),
      str_float = (\<lambda>t. ''0.005''),
      batch = (\<lambda>p t a m. Inr [Str ''q''])\<rparr>"

definition example_gui :: gui where
  "example_gui =
     \<lparr>input_file_path = ''lib.csv'', output_file_path = ''out.csv'', file_type = ''csv'',
      loaded_data = None, results = None, progress_value = 0, progress_label = ''0%'',
      trace = []\<rparr>"

section \<open>Properties\<close>

subsection \<open>standardize_columns\<close>

lemma dict_set_map_of: "map_of (dict_set d k v) = (map_of d)(k \<mapsto> v)"
  by (induction d k v rule: dict_set.induct) (auto simp: fun_eq_iff)

lemma dict_set_nonempty: "dict_set d k v \<noteq> []"
  by (cases d) (auto split: if_splits)

lemma map_of_column_mapping:
  "map_of column_mapping x =
     (if x \<in> {''msms'', ''ms/ms'', ''peak'', ''peaks'', ''spectra'', ''spectrum''}
      then Some ''peaks''
      else if x \<in> {''smile'', ''smiles''} then Some ''smiles''
      else if x \<in> {''adduct'', ''adducts''} then Some ''adducts''
      else None)"
  by (simp add: column_mapping_def)

lemma spec_standard_name_map_of:
  "spec_standard_name col =
     (case map_of column_mapping (lower col) of Some std \<Rightarrow> std | None \<Rightarrow> col)"
  unfolding spec_standard_name_def map_of_column_mapping by simp

text \<open>
  The loop's invariant: the dict holds what it held before, and for every column seen
  whose lower-cased label is a key of \<open>column_mapping\<close>, the standard name.
\<close>

lemma new_columns_loop_map_of:
  "map_of (fst (new_columns_loop cs d out)) c =
     (if c \<in> set cs \<and> map_of column_mapping (lower c) \<noteq> None
      then map_of column_mapping (lower c) else map_of d c)"
proof (induction cs arbitrary: d out)
  case Nil
  show ?case by simp
next
  case (Cons col rest)
  show ?case
  proof (cases "map_of column_mapping (lower col)")
    case None
    then show ?thesis using Cons.IH [of d out] by auto
  next
    case (Some std)
    then show ?thesis
      using Cons.IH [of "dict_set d col std"
          "out @ [Log (''Mapped column '' @ quoted col @ '' -> '' @ quoted std)]"]
      by (auto simp: dict_set_map_of)
  qed
qed

lemma new_columns_loop_empty:
  "fst (new_columns_loop cs d out) = [] \<Longrightarrow>
     d = [] \<and> (\<forall>c \<in> set cs. map_of column_mapping (lower c) = None)"
proof (induction cs arbitrary: d out)
  case Nil
  then show ?case by simp
next
  case (Cons col rest)
  show ?case
  proof (cases "map_of column_mapping (lower col)")
    case None
    then show ?thesis using Cons.IH [of d out] Cons.prems by auto
  next
    case (Some std)
    then have "dict_set d col std = []"
      using Cons.IH [of "dict_set d col std"
          "out @ [Log (''Mapped column '' @ quoted col @ '' -> '' @ quoted std)]"] Cons.prems
      by auto
    then show ?thesis by (simp add: dict_set_nonempty)
  qed
qed

lemma rename_new_columns:
  assumes "new_columns_loop (columns df) [] [] = (d, out)"
  shows "rename d df = df\<lparr>cols := map (\<lambda>(c, xs). (spec_standard_name c, xs)) (cols df)\<rparr>"
proof -
  have "\<And>c xs. (c, xs) \<in> set (cols df) \<Longrightarrow>
          (case map_of d c of Some c' \<Rightarrow> c' | None \<Rightarrow> c) = spec_standard_name c"
  proof -
    fix c xs assume "(c, xs) \<in> set (cols df)"
    then have "c \<in> set (columns df)" by (force simp: columns_def)
    then show "(case map_of d c of Some c' \<Rightarrow> c' | None \<Rightarrow> c) = spec_standard_name c"
      using new_columns_loop_map_of [of "columns df" "[]" "[]" c] assms
      by (auto simp: spec_standard_name_map_of split: option.splits)
  qed
  then have "map (\<lambda>(c, xs). (case map_of d c of Some c' \<Rightarrow> c' | None \<Rightarrow> c, xs)) (cols df) =
      map (\<lambda>(c, xs). (spec_standard_name c, xs)) (cols df)"
    by (intro map_cong) auto
  then show ?thesis by (simp add: rename_def)
qed

lemma unmapped_frame:
  assumes "new_columns_loop (columns df) [] [] = ([], out)"
  shows "df = df\<lparr>cols := map (\<lambda>(c, xs). (spec_standard_name c, xs)) (cols df)\<rparr>"
proof -
  have "\<forall>c \<in> set (columns df). map_of column_mapping (lower c) = None"
    using new_columns_loop_empty [of "columns df" "[]" "[]"] assms by simp
  then have "map (\<lambda>(c, xs). (spec_standard_name c, xs)) (cols df) = cols df"
    by (intro map_idI) (force simp: columns_def spec_standard_name_map_of)
  then show ?thesis by simp
qed

text \<open>
  C2. For every frame, \<open>standardize_columns\<close> returns the frame in which every column
  whose lower-cased label is \<open>msms\<close>, \<open>ms/ms\<close>, \<open>peak\<close>, \<open>peaks\<close>, \<open>spectra\<close> or
  \<open>spectrum\<close> is named \<open>peaks\<close>, every column whose lower-cased label is \<open>smile\<close> or
  \<open>smiles\<close> is named \<open>smiles\<close>, every column whose lower-cased label is \<open>adduct\<close> or
  \<open>adducts\<close> is named \<open>adducts\<close>, and every other column keeps its label; the cells
  of every column and the index are those of the input.
\<close>

theorem standardize_columns_renames:
  "fst (standardize_columns df) =
     df\<lparr>cols := map (\<lambda>(c, xs). (spec_standard_name c, xs)) (cols df)\<rparr>"
proof (cases "new_columns_loop (columns df) [] []")
  case (Pair d out)
  show ?thesis
  proof (cases "d = []")
    case True
    then show ?thesis
      using Pair unmapped_frame [of df out] by (simp add: standardize_columns_def)
  next
    case False
    then show ?thesis
      using Pair rename_new_columns [of df d out] by (simp add: standardize_columns_def)
  qed
qed

theorem standardize_columns_renames_witness:
  "fst (standardize_columns
      \<lparr>index = [0], cols = [(''MSMS'', [1::nat]), (''Name'', [2]), (''Smile'', [3])]\<rparr>) =
     \<lparr>index = [0], cols = [(''peaks'', [1]), (''Name'', [2]), (''smiles'', [3])]\<rparr>"
proof -
  have e: "\<lparr>index = [0], cols = [(''MSMS'', [1::nat]), (''Name'', [2]), (''Smile'', [3])]\<rparr>
      \<lparr>cols := map (\<lambda>(c, xs). (spec_standard_name c, xs))
         (cols \<lparr>index = [0], cols = [(''MSMS'', [1::nat]), (''Name'', [2]), (''Smile'', [3])]\<rparr>)\<rparr> =
     \<lparr>index = [0], cols = [(''peaks'', [1]), (''Name'', [2]), (''smiles'', [3])]\<rparr>"
    by code_simp
  show ?thesis by (rule trans [OF standardize_columns_renames e])
qed

subsection \<open>extract_smiles_from_comments\<close>

lemma find_map_shift: "find P (map f xs) = map_option f (find (\<lambda>x. P (f x)) xs)"
  by (induction xs) auto

lemma find_upt_Suc:
  "find P [0 ..< Suc n] =
     (if P 0 then Some 0 else map_option Suc (find (\<lambda>i. P (Suc i)) [0 ..< n]))"
proof -
  have "[0 ..< Suc n] = 0 # map Suc [0 ..< n]"
    by (simp add: upt_conv_Cons map_Suc_upt del: upt_Suc)
  then show ?thesis by (simp add: find_map_shift del: upt_Suc)
qed

text \<open>One start position: the code's test is the specification's occurrence.\<close>

lemma match_at_spec:
  "match_at lit s = (if spec_occurs_at lit s 0 then Some (spec_capture lit s 0) else None)"
proof (cases "length lit < length s")
  case True
  then have "drop (length lit) s \<noteq> []" by simp
  moreover have "hd (drop (length lit) s) = s ! length lit"
    using True by (simp add: hd_drop_conv_nth)
  ultimately show ?thesis
    using True
    by (auto simp: match_at_def spec_occurs_at_def spec_capture_def Let_def takeWhile_eq_Nil_iff)
next
  case False
  then show ?thesis
    by (auto simp: match_at_def spec_occurs_at_def spec_capture_def Let_def)
qed

lemma spec_occurs_at_Cons: "spec_occurs_at lit (c # cs) (Suc i) = spec_occurs_at lit cs i"
  by (simp add: spec_occurs_at_def)

lemma spec_capture_Cons: "spec_capture lit (c # cs) (Suc i) = spec_capture lit cs i"
  by (simp add: spec_capture_def)

lemma re_search_spec:
  "re_search lit s = map_option (spec_capture lit s) (spec_first_occurrence lit s)"
proof (induction s)
  case Nil
  show ?case by (simp add: match_at_spec spec_occurs_at_def spec_first_occurrence_def)
next
  case (Cons c cs)
  show ?case
  proof (cases "spec_occurs_at lit (c # cs) 0")
    case True
    then show ?thesis
      by (simp add: match_at_spec spec_first_occurrence_def find_upt_Suc del: upt_Suc)
  next
    case False
    then show ?thesis
      using Cons.IH
      by (simp add: match_at_spec spec_first_occurrence_def find_upt_Suc spec_occurs_at_Cons
          spec_capture_Cons option.map_comp comp_def del: upt_Suc)
  qed
qed

text \<open>What \<open>spec_first_occurrence\<close> and \<open>spec_capture\<close> say.\<close>

lemma spec_first_occurrence_Some:
  "spec_first_occurrence lit s = Some i \<longleftrightarrow>
     spec_occurs_at lit s i \<and> (\<forall>j < i. \<not> spec_occurs_at lit s j)"
proof -
  have "spec_occurs_at lit s i \<Longrightarrow> i < length s"
    by (simp add: spec_occurs_at_def)
  then show ?thesis
    by (auto simp: spec_first_occurrence_def find_Some_iff)
qed

lemma spec_first_occurrence_None:
  "spec_first_occurrence lit s = None \<longleftrightarrow> (\<forall>i. \<not> spec_occurs_at lit s i)"
proof -
  have "\<And>i. spec_occurs_at lit s i \<Longrightarrow> i < length s"
    by (simp add: spec_occurs_at_def)
  then show ?thesis
    by (auto simp: spec_first_occurrence_def find_None_iff)
qed

lemma spec_capture_maximal:
  "\<exists>rest. drop (i + length lit) s = spec_capture lit s i @ rest \<and>
     CHR 0x22 \<notin> set (spec_capture lit s i) \<and> (rest = [] \<or> hd rest = CHR 0x22)"
proof -
  let ?xs = "drop (i + length lit) s"
  let ?rest = "dropWhile (\<lambda>c. c \<noteq> CHR 0x22) ?xs"
  have "?xs = spec_capture lit s i @ ?rest"
    by (simp add: spec_capture_def)
  moreover have "CHR 0x22 \<notin> set (spec_capture lit s i)"
    by (auto simp: spec_capture_def dest: set_takeWhileD)
  moreover have "?rest = [] \<or> hd ?rest = CHR 0x22"
    using hd_dropWhile [of "\<lambda>c. c \<noteq> CHR 0x22" ?xs] by auto
  ultimately show ?thesis by blast
qed

text \<open>
  C4. \<open>extract_smiles_from_comments\<close> returns \<open>None\<close> for every cell that is missing
  (NaN, \<open>None\<close>) or is no string. For a string it returns the stripped capture of the
  first occurrence of \<open>computed SMILES=\<close> followed by a maximal non-empty run of
  characters other than the double quote; when there is no such occurrence, that of
  the first occurrence of \<open>SMILES=\<close> followed by such a run; and \<open>None\<close> when neither
  occurs. The first pattern is tried first wherever the second one occurs.
\<close>

theorem extract_smiles_from_comments_spec:
  "(isna c \<or> \<not> isinstance_str c \<longrightarrow> extract_smiles_from_comments c = None) \<and>
   extract_smiles_from_comments (Str s) = spec_extract s"
  by (simp add: extract_smiles_from_comments_def re_search_spec spec_extract_def
      split: option.splits)

theorem extract_smiles_from_comments_spec_witness:
  "isna NaN \<and> extract_smiles_from_comments NaN = None \<and>
   extract_smiles_from_comments
     (Str (''a SMILES=CC'' @ [CHR 0x22] @ '' computed SMILES= OCO '' @ [CHR 0x22] @ ''x'')) =
   Some ''OCO''"
proof -
  let ?s = "''a SMILES=CC'' @ [CHR 0x22] @ '' computed SMILES= OCO '' @ [CHR 0x22] @ ''x''"
  have h: "isna NaN \<or> \<not> isinstance_str NaN"
    by simp
  have a: "extract_smiles_from_comments NaN = None"
    by (rule mp [OF conjunct1 [OF extract_smiles_from_comments_spec [of NaN ?s]] h])
  have e: "spec_extract ?s = Some ''OCO''"
    by code_simp
  have "extract_smiles_from_comments (Str ?s) = spec_extract ?s"
    by (rule conjunct2 [OF extract_smiles_from_comments_spec [of NaN ?s]])
  then have b: "extract_smiles_from_comments (Str ?s) = Some ''OCO''"
    using e by (rule trans)
  show ?thesis
    by (intro conjI) (simp, rule a, rule b)
qed

subsection \<open>fill_missing_smiles\<close>

text \<open>The three outcomes of \<open>df[key]\<close>.\<close>


lemma getitem_cases:
  "(getitem df key = Inl (Raised KeyError (quoted key)) \<and> key \<notin> set (columns df)) \<or>
   (\<exists>xs. getitem df key = Inr (Series (index df) xs) \<and>
      filter (\<lambda>(c, xs). c = key) (cols df) = [(key, xs)]) \<or>
   (\<exists>sub. getitem df key = Inr (SubFrame sub) \<and>
      1 < length (filter (\<lambda>(c, xs). c = key) (cols df)))"
proof (cases "filter (\<lambda>(c, xs). c = key) (cols df)")
  case Nil
  then have "key \<notin> set (columns df)"
    by (auto simp: columns_def filter_empty_conv)
  then show ?thesis using Nil by (simp add: getitem_def)
next
  case (Cons p ps)
  obtain c xs where p: "p = (c, xs)" by (cases p)
  have "p \<in> set (filter (\<lambda>(c, xs). c = key) (cols df))" using Cons by simp
  then have c: "c = key" using p by simp
  show ?thesis
  proof (cases ps)
    case Nil
    then show ?thesis using Cons p c by (simp add: getitem_def)
  next
    case (Cons q qs)
    then show ?thesis using \<open>filter _ _ = p # ps\<close> p by (simp add: getitem_def)
  qed
qed

text \<open>
  C6. When the frame has no column \<open>smiles\<close> and has a column \<open>comments\<close>,
  \<open>fill_missing_smiles\<close> returns the frame with one new last column \<open>smiles\<close>, the
  cells of the column \<open>comments\<close> under \<open>extract_smiles_from_comments\<close>; it raises only
  when the frame has no column \<open>smiles\<close> and several columns \<open>comments\<close>; in every
  other case it returns the frame as it is. Whenever it returns, the columns with
  another label than \<open>smiles\<close> are those of the input, in order and with their cells,
  and so is the index.
\<close>

theorem fill_missing_smiles_frame:
  "case snd (fill_missing_smiles df) of
     Inl e \<Rightarrow>
       ''smiles'' \<notin> set (columns df) \<and>
       1 < length (filter (\<lambda>(c, xs). c = ''comments'') (cols df))
   | Inr df' \<Rightarrow>
       filter (\<lambda>(c, xs). c \<noteq> ''smiles'') (cols df') = filter (\<lambda>(c, xs). c \<noteq> ''smiles'') (cols df) \<and>
       (if ''smiles'' \<notin> set (columns df) \<and> ''comments'' \<in> set (columns df)
        then \<exists>xs. filter (\<lambda>(c, xs). c = ''comments'') (cols df) = [(''comments'', xs)] \<and>
               df' = df\<lparr>cols := cols df @ [(''smiles'', map extracted_cell xs)]\<rparr>
        else df' = df)"
proof (cases "''smiles'' \<notin> set (columns df) \<and> ''comments'' \<in> set (columns df)")
  case False
  then show ?thesis by (auto simp: fill_missing_smiles_def)
next
  case True
  from getitem_cases [of df "''comments''"] True
  consider
    (one) xs where "getitem df ''comments'' = Inr (Series (index df) xs)"
      "filter (\<lambda>(c, xs). c = ''comments'') (cols df) = [(''comments'', xs)]"
  | (many) sub where "getitem df ''comments'' = Inr (SubFrame sub)"
      "1 < length (filter (\<lambda>(c, xs). c = ''comments'') (cols df))"
    by auto
  then show ?thesis
  proof cases
    case one
    then show ?thesis using True
      by (simp add: fill_missing_smiles_def Let_def set_column_def)
  next
    case many
    then show ?thesis using True
      by (simp add: fill_missing_smiles_def Let_def)
  qed
qed


theorem fill_missing_smiles_frame_witness:
  "''smiles'' \<notin> set (columns \<lparr>index = [0, 1], cols = [(''peaks'', [Str ''p0'', Str ''p1'']),
       (''comments'', [Str ''SMILES=CCO'', NaN])]\<rparr>) \<and>
   ''comments'' \<in> set (columns \<lparr>index = [0, 1], cols = [(''peaks'', [Str ''p0'', Str ''p1'']),
       (''comments'', [Str ''SMILES=CCO'', NaN])]\<rparr>) \<and>
   snd (fill_missing_smiles \<lparr>index = [0, 1], cols = [(''peaks'', [Str ''p0'', Str ''p1'']),
       (''comments'', [Str ''SMILES=CCO'', NaN])]\<rparr>) =
     Inr \<lparr>index = [0, 1], cols = [(''peaks'', [Str ''p0'', Str ''p1'']),
       (''comments'', [Str ''SMILES=CCO'', NaN]), (''smiles'', [Str ''CCO'', PyNone])]\<rparr>"
proof -
  let ?df = "\<lparr>index = [0, 1], cols = [(''peaks'', [Str ''p0'', Str ''p1'']),
       (''comments'', [Str ''SMILES=CCO'', NaN])]\<rparr> :: cell frame"
  have c: "''smiles'' \<notin> set (columns ?df) \<and> ''comments'' \<in> set (columns ?df)"
    by (simp add: columns_def)
  have e: "map extracted_cell [Str ''SMILES=CCO'', NaN] = [Str ''CCO'', PyNone]"
    by code_simp
  show ?thesis
    using fill_missing_smiles_frame [of ?df] c e
    by (auto split: sum.splits)
qed

subsection \<open>denoising_pipeline\<close>

lemma filter_key_empty:
  "filter (\<lambda>(c, xs). c = key) (cols df) = [] \<longleftrightarrow> key \<notin> set (columns df)"
  by (force simp: columns_def filter_empty_conv)

lemma getitem_Inr_iff: "(\<exists>sel. getitem df key = Inr sel) \<longleftrightarrow> key \<in> set (columns df)"
proof (cases "filter (\<lambda>(c, xs). c = key) (cols df)")
  case Nil
  then show ?thesis using filter_key_empty [of key df] by (simp add: getitem_def)
next
  case (Cons p ps)
  then have "key \<in> set (columns df)" using filter_key_empty [of key df] by simp
  then show ?thesis using Cons by (auto simp: getitem_def split: list.splits prod.splits)
qed

lemma len_lower_columns: "len (lower_columns df) = len df"
  by (simp add: len_def lower_columns_def)

lemma columns_lower_columns: "columns (lower_columns df) = map lower (columns df)"
  by (simp add: columns_def lower_columns_def case_prod_unfold)

text \<open>
  The run of the function once the three selections succeed and the external function
  returns one entry per row.
\<close>

lemma denoising_pipeline_on_selections:
  assumes "a < length store"
    and "getitem (lower_columns (store ! a)) ''peaks'' = Inr peaks"
    and "getitem (lower_columns (store ! a)) ''smiles'' = Inr smiles"
    and "getitem (lower_columns (store ! a)) ''adducts'' = Inr adducts"
    and "spectral_denoising_batch peaks smiles adducts mass_error = Inr denoised_peaks"
    and "length denoised_peaks = len (store ! a)"
  shows "denoising_pipeline spectral_denoising_batch nan store a mass_error =
     (store[a := lower_columns (store ! a)] @
        [if ''denoised_peaks'' \<in> set (map lower (columns (store ! a)))
         then (lower_columns (store ! a))
                \<lparr>cols := map (\<lambda>(c, xs). if c = ''denoised_peaks'' then (c, denoised_peaks) else (c, xs))
                   (cols (lower_columns (store ! a)))\<rparr>
         else (lower_columns (store ! a))
                \<lparr>cols := cols (lower_columns (store ! a)) @ [(''denoised_peaks'', denoised_peaks)]\<rparr>],
      Inr (length store))"
proof -
  let ?L = "lower_columns (store ! a)"
  let ?s1 = "store[a := ?L]"
  have at: "?s1 ! a = ?L" using assms(1) by simp
  have set: "setitem_list nan ?L ''denoised_peaks'' denoised_peaks =
      Inr (set_column ?L ''denoised_peaks'' denoised_peaks)"
    using assms(6) by (auto simp: setitem_list_def len_lower_columns)
  have new: "(?s1 @ [?L]) ! length ?s1 = ?L" by (simp add: nth_append)
  have upd: "(?s1 @ [?L])[length ?s1 := X] = ?s1 @ [X]" for X
    using list_update_length [of ?s1 ?L "[]" X] by simp
  show ?thesis
    unfolding denoising_pipeline_def Let_def at
    by (simp only: assms(2-5) sum.case new upd set set_column_def columns_lower_columns) simp
qed


text \<open>
  C1 (as amended). For every frame in the store whose lower-cased column labels include
  \<open>peaks\<close>, \<open>smiles\<close> and \<open>adducts\<close>, the three selections succeed, and whenever
  \<open>spectral_denoising_batch\<close>, applied to them and to \<open>mass_error\<close>, returns a list
  with one entry per row, \<open>denoising_pipeline\<close> returns a new frame: the input with all
  column labels lower-cased, in which the column \<open>denoised_peaks\<close> holds that list. The
  column is one new last column when no lower-cased label is \<open>denoised_peaks\<close>;
  otherwise every column of that label takes the list and no column is added. All
  other columns and the index are those of the input.
\<close>

theorem denoising_pipeline_result:
  assumes "a < length store"
    and "{''peaks'', ''smiles'', ''adducts''} \<subseteq> set (map lower (columns (store ! a)))"
  shows "\<exists>peaks smiles adducts.
     getitem (lower_columns (store ! a)) ''peaks'' = Inr peaks \<and>
     getitem (lower_columns (store ! a)) ''smiles'' = Inr smiles \<and>
     getitem (lower_columns (store ! a)) ''adducts'' = Inr adducts \<and>
     (\<forall>denoised_peaks.
        spectral_denoising_batch peaks smiles adducts mass_error = Inr denoised_peaks \<and>
        length denoised_peaks = len (store ! a) \<longrightarrow>
        denoising_pipeline spectral_denoising_batch nan store a mass_error =
          (store[a := lower_columns (store ! a)] @
             [if ''denoised_peaks'' \<in> set (map lower (columns (store ! a)))
              then (lower_columns (store ! a))
                     \<lparr>cols := map (\<lambda>(c, xs). if c = ''denoised_peaks'' then (c, denoised_peaks) else (c, xs))
                        (cols (lower_columns (store ! a)))\<rparr>
              else (lower_columns (store ! a))
                     \<lparr>cols := cols (lower_columns (store ! a)) @ [(''denoised_peaks'', denoised_peaks)]\<rparr>],
           Inr (length store)))"
proof -
  let ?L = "lower_columns (store ! a)"
  obtain peaks where p: "getitem ?L ''peaks'' = Inr peaks"
    using assms(2) getitem_Inr_iff [of ?L "''peaks''"] by (auto simp: columns_lower_columns)
  obtain smiles where s: "getitem ?L ''smiles'' = Inr smiles"
    using assms(2) getitem_Inr_iff [of ?L "''smiles''"] by (auto simp: columns_lower_columns)
  obtain adducts where ad: "getitem ?L ''adducts'' = Inr adducts"
    using assms(2) getitem_Inr_iff [of ?L "''adducts''"] by (auto simp: columns_lower_columns)
  show ?thesis
  proof (intro exI conjI allI impI)
    show "getitem ?L ''peaks'' = Inr peaks" by (rule p)
    show "getitem ?L ''smiles'' = Inr smiles" by (rule s)
    show "getitem ?L ''adducts'' = Inr adducts" by (rule ad)
  next
    fix denoised_peaks
    assume "spectral_denoising_batch peaks smiles adducts mass_error = Inr denoised_peaks \<and>
        length denoised_peaks = len (store ! a)"
    then show "denoising_pipeline spectral_denoising_batch nan store a mass_error =
          (store[a := ?L] @
             [if ''denoised_peaks'' \<in> set (map lower (columns (store ! a)))
              then ?L\<lparr>cols := map (\<lambda>(c, xs). if c = ''denoised_peaks'' then (c, denoised_peaks) else (c, xs))
                        (cols ?L)\<rparr>
              else ?L\<lparr>cols := cols ?L @ [(''denoised_peaks'', denoised_peaks)]\<rparr>],
           Inr (length store))"
      by (elim conjE) (rule denoising_pipeline_on_selections [OF assms(1) p s ad])
  qed
qed

theorem denoising_pipeline_result_witness:
  "denoising_pipeline (\<lambda>p s a t. Inr [Str ''q'']) NaN
     [\<lparr>index = [7], cols = [(''Peaks'', [Str ''p'']), (''SMILES'', [Str ''CCO'']),
        (''Adducts'', [Str ''[M+H]+''])]\<rparr>] 0 () =
   ([\<lparr>index = [7], cols = [(''peaks'', [Str ''p'']), (''smiles'', [Str ''CCO'']),
        (''adducts'', [Str ''[M+H]+''])]\<rparr>,
     \<lparr>index = [7], cols = [(''peaks'', [Str ''p'']), (''smiles'', [Str ''CCO'']),
        (''adducts'', [Str ''[M+H]+'']), (''denoised_peaks'', [Str ''q''])]\<rparr>],
    Inr 1)"
proof -
  let ?df = "\<lparr>index = [7], cols = [(''Peaks'', [Str ''p'']), (''SMILES'', [Str ''CCO'']),
        (''Adducts'', [Str ''[M+H]+''])]\<rparr> :: cell frame"
  let ?B = "(\<lambda>p s a t. Inr [Str ''q'']) ::
     cell selection \<Rightarrow> cell selection \<Rightarrow> cell selection \<Rightarrow> unit \<Rightarrow> exn + cell list"
  have a: "0 < length [?df]" by simp
  have names: "{''peaks'', ''smiles'', ''adducts''} \<subseteq> set (map lower (columns ([?df] ! 0)))"
    by code_simp
  have low: "lower_columns ([?df] ! 0) =
      \<lparr>index = [7], cols = [(''peaks'', [Str ''p'']), (''smiles'', [Str ''CCO'']),
        (''adducts'', [Str ''[M+H]+''])]\<rparr>"
    by code_simp
  have dp: "''denoised_peaks'' \<notin> set (map lower (columns ([?df] ! 0)))"
    by code_simp
  have n: "length [Str ''q''] = len ([?df] ! 0)"
    by (simp add: len_def)
  from denoising_pipeline_result [OF a names, of ?B "()" NaN]
  have "denoising_pipeline ?B NaN [?df] 0 () =
          ([?df][0 := lower_columns ([?df] ! 0)] @
             [(lower_columns ([?df] ! 0))
                \<lparr>cols := cols (lower_columns ([?df] ! 0)) @ [(''denoised_peaks'', [Str ''q''])]\<rparr>],
           Inr (length [?df]))"
    using n dp by auto
  then show ?thesis unfolding low by simp
qed

text \<open>
  C1 as stated fails on a frame that already has a column \<open>denoised_peaks\<close> (a file
  written by an earlier run): the result has the four columns of the input, none is
  added, and the cells of the old column are replaced.
\<close>

theorem denoising_pipeline_overwrites:
  "denoising_pipeline (\<lambda>p s a t. Inr [Str ''q'']) NaN
     [\<lparr>index = [7], cols = [(''Peaks'', [Str ''p'']), (''SMILES'', [Str ''CCO'']),
        (''Adducts'', [Str ''[M+H]+'']), (''Denoised_Peaks'', [Str ''old''])]\<rparr>] 0 () =
   ([\<lparr>index = [7], cols = [(''peaks'', [Str ''p'']), (''smiles'', [Str ''CCO'']),
        (''adducts'', [Str ''[M+H]+'']), (''denoised_peaks'', [Str ''old''])]\<rparr>,
     \<lparr>index = [7], cols = [(''peaks'', [Str ''p'']), (''smiles'', [Str ''CCO'']),
        (''adducts'', [Str ''[M+H]+'']), (''denoised_peaks'', [Str ''q''])]\<rparr>],
    Inr 1)"
  by code_simp

text \<open>
  The six ways the function ends: a selection raises, the external function raises,
  the assignment raises, or the function returns; each with the store it leaves.
\<close>

lemma denoising_pipeline_outcomes:
  fixes B and nan and store and a and m
  assumes "a < length store"
  defines "L \<equiv> lower_columns (store ! a)"
  defines "P \<equiv> denoising_pipeline B nan store a m"
  shows
   "(\<exists>e. getitem L ''peaks'' = Inl e \<and> P = (store[a := L], Inl e)) \<or>
    (\<exists>p e. getitem L ''peaks'' = Inr p \<and> getitem L ''smiles'' = Inl e \<and>
       P = (store[a := L], Inl e)) \<or>
    (\<exists>p s e. getitem L ''peaks'' = Inr p \<and> getitem L ''smiles'' = Inr s \<and>
       getitem L ''adducts'' = Inl e \<and> P = (store[a := L], Inl e)) \<or>
    (\<exists>p s ad e. getitem L ''peaks'' = Inr p \<and> getitem L ''smiles'' = Inr s \<and>
       getitem L ''adducts'' = Inr ad \<and> B p s ad m = Inl e \<and> P = (store[a := L], Inl e)) \<or>
    (\<exists>p s ad d e. getitem L ''peaks'' = Inr p \<and> getitem L ''smiles'' = Inr s \<and>
       getitem L ''adducts'' = Inr ad \<and> B p s ad m = Inr d \<and>
       setitem_list nan L ''denoised_peaks'' d = Inl e \<and> P = (store[a := L] @ [L], Inl e)) \<or>
    (\<exists>p s ad d df'. getitem L ''peaks'' = Inr p \<and> getitem L ''smiles'' = Inr s \<and>
       getitem L ''adducts'' = Inr ad \<and> B p s ad m = Inr d \<and>
       setitem_list nan L ''denoised_peaks'' d = Inr df' \<and>
       P = (store[a := L] @ [df'], Inr (length store)))"
proof -
  let ?st = "store[a := L]"
  have at: "store[a := lower_columns (store ! a)] ! a = L"
    using assms(1) by (simp add: L_def)
  have new: "(?st @ [L]) ! length ?st = L" by (simp add: nth_append)
  have upd: "(?st @ [L])[length ?st := X] = ?st @ [X]" for X
    using list_update_length [of ?st L "[]" X] by simp
  have P: "P = (case getitem L ''peaks'' of Inl e \<Rightarrow> (?st, Inl e) | Inr p \<Rightarrow>
      case getitem L ''smiles'' of Inl e \<Rightarrow> (?st, Inl e) | Inr s \<Rightarrow>
      case getitem L ''adducts'' of Inl e \<Rightarrow> (?st, Inl e) | Inr ad \<Rightarrow>
      case B p s ad m of Inl e \<Rightarrow> (?st, Inl e) | Inr d \<Rightarrow>
      case setitem_list nan L ''denoised_peaks'' d of
        Inl e \<Rightarrow> (?st @ [L], Inl e)
      | Inr df' \<Rightarrow> (?st @ [df'], Inr (length store)))"
    unfolding P_def denoising_pipeline_def Let_def at
    unfolding L_def [symmetric] new upd
    by (simp split: sum.splits)
  show ?thesis
  proof (cases "getitem L ''peaks''")
    case (Inl e) then show ?thesis using P by simp
  next
    case p: (Inr p)
    show ?thesis
    proof (cases "getitem L ''smiles''")
      case (Inl e) then show ?thesis using P p by simp
    next
      case s: (Inr s)
      show ?thesis
      proof (cases "getitem L ''adducts''")
        case (Inl e) then show ?thesis using P p s by simp
      next
        case ad: (Inr ad)
        show ?thesis
        proof (cases "B p s ad m")
          case (Inl e) then show ?thesis using P p s ad by simp
        next
          case d: (Inr d)
          show ?thesis
          proof (cases "setitem_list nan L ''denoised_peaks'' d")
            case (Inl e) then show ?thesis using P p s ad d by simp
          next
            case (Inr df') then show ?thesis using P p s ad d by simp
          qed
        qed
      qed
    qed
  qed
qed

lemma setitem_list_fits:
  "length vals = len df \<Longrightarrow> setitem_list nan df key vals = Inr (set_column df key vals)"
  by (auto simp: setitem_list_def)

text \<open>
  C9. For every frame in the store: after the call the object at the argument's
  address is the input with lower-cased column labels, whether the call returns or
  raises, and every other object is as before. When the call returns, the address
  returned is a new one, not the argument's, and the object there is the result of
  assigning \<open>denoised_peaks\<close> to the frame with lower-cased labels: the copy is
  taken after the labels are reassigned, and the assignment to the copy does not
  reach the argument. The call raises only when a selection, the external function or
  the assignment raises, and it returns whenever the three selections succeed and
  the external function returns one entry per row.
\<close>

theorem denoising_pipeline_mutates_input:
  assumes "a < length store"
  shows
   "fst (denoising_pipeline spectral_denoising_batch nan store a mass_error) ! a =
      lower_columns (store ! a) \<and>
    (\<forall>i < length store. i \<noteq> a \<longrightarrow>
       fst (denoising_pipeline spectral_denoising_batch nan store a mass_error) ! i = store ! i) \<and>
    (case snd (denoising_pipeline spectral_denoising_batch nan store a mass_error) of
       Inl e \<Rightarrow>
         (\<exists>key \<in> {''peaks'', ''smiles'', ''adducts''}.
            getitem (lower_columns (store ! a)) key = Inl e) \<or>
         (\<exists>peaks smiles adducts.
            spectral_denoising_batch peaks smiles adducts mass_error = Inl e) \<or>
         (\<exists>denoised_peaks.
            setitem_list nan (lower_columns (store ! a)) ''denoised_peaks'' denoised_peaks = Inl e)
     | Inr b \<Rightarrow>
         b = length store \<and> b \<noteq> a \<and>
         length (fst (denoising_pipeline spectral_denoising_batch nan store a mass_error)) =
           Suc (length store) \<and>
         (\<exists>peaks smiles adducts denoised_peaks.
            getitem (lower_columns (store ! a)) ''peaks'' = Inr peaks \<and>
            getitem (lower_columns (store ! a)) ''smiles'' = Inr smiles \<and>
            getitem (lower_columns (store ! a)) ''adducts'' = Inr adducts \<and>
            spectral_denoising_batch peaks smiles adducts mass_error = Inr denoised_peaks \<and>
            setitem_list nan (lower_columns (store ! a)) ''denoised_peaks'' denoised_peaks =
              Inr (fst (denoising_pipeline spectral_denoising_batch nan store a mass_error) ! b))) \<and>
    (\<forall>peaks smiles adducts denoised_peaks.
       getitem (lower_columns (store ! a)) ''peaks'' = Inr peaks \<and>
       getitem (lower_columns (store ! a)) ''smiles'' = Inr smiles \<and>
       getitem (lower_columns (store ! a)) ''adducts'' = Inr adducts \<and>
       spectral_denoising_batch peaks smiles adducts mass_error = Inr denoised_peaks \<and>
       length denoised_peaks = len (store ! a) \<longrightarrow>
       snd (denoising_pipeline spectral_denoising_batch nan store a mass_error) =
         Inr (length store))"
    (is "?in \<and> ?others \<and> ?out \<and> ?returns")
proof -
  let ?L = "lower_columns (store ! a)"
  let ?P = "denoising_pipeline spectral_denoising_batch nan store a mass_error"
  have at: "store[a := ?L] ! a = ?L" using assms by simp
  have at': "(store[a := ?L] @ [X]) ! a = ?L" for X using assms by (simp add: nth_append)
  have oth: "i < length store \<Longrightarrow> i \<noteq> a \<Longrightarrow> store[a := ?L] ! i = store ! i" for i
    by simp
  have oth': "i < length store \<Longrightarrow> i \<noteq> a \<Longrightarrow> (store[a := ?L] @ [X]) ! i = store ! i" for i X
    by (simp add: nth_append)
  have fresh: "(store[a := ?L] @ [X]) ! length store = X" for X
    by (simp add: nth_append)
  have ne: "length store \<noteq> a" using assms by simp
  have fits: "length d = len (store ! a) \<Longrightarrow> setitem_list nan ?L ''denoised_peaks'' d \<noteq> Inl e" for d e
    by (simp add: setitem_list_fits len_lower_columns)
  from denoising_pipeline_outcomes [OF assms, of spectral_denoising_batch nan mass_error]
  consider
    (k1) e where "getitem ?L ''peaks'' = Inl e" "?P = (store[a := ?L], Inl e)"
  | (k2) p e where "getitem ?L ''peaks'' = Inr p" "getitem ?L ''smiles'' = Inl e"
      "?P = (store[a := ?L], Inl e)"
  | (k3) p s e where "getitem ?L ''peaks'' = Inr p" "getitem ?L ''smiles'' = Inr s"
      "getitem ?L ''adducts'' = Inl e" "?P = (store[a := ?L], Inl e)"
  | (b) p s ad e where "getitem ?L ''peaks'' = Inr p" "getitem ?L ''smiles'' = Inr s"
      "getitem ?L ''adducts'' = Inr ad" "spectral_denoising_batch p s ad mass_error = Inl e"
      "?P = (store[a := ?L], Inl e)"
  | (v) p s ad d e where "getitem ?L ''peaks'' = Inr p" "getitem ?L ''smiles'' = Inr s"
      "getitem ?L ''adducts'' = Inr ad" "spectral_denoising_batch p s ad mass_error = Inr d"
      "setitem_list nan ?L ''denoised_peaks'' d = Inl e" "?P = (store[a := ?L] @ [?L], Inl e)"
  | (r) p s ad d df' where "getitem ?L ''peaks'' = Inr p" "getitem ?L ''smiles'' = Inr s"
      "getitem ?L ''adducts'' = Inr ad" "spectral_denoising_batch p s ad mass_error = Inr d"
      "setitem_list nan ?L ''denoised_peaks'' d = Inr df'"
      "?P = (store[a := ?L] @ [df'], Inr (length store))"
    by blast
  then show ?thesis
  proof cases
    case k1
    have "?in" "?others" "?out" "?returns"
      unfolding k1(2) using k1(1) by (simp_all add: at oth)
    then show ?thesis by blast
  next
    case k2
    have "?in" "?others" "?out" "?returns"
      unfolding k2(3) using k2(1,2) by (simp_all add: at oth)
    then show ?thesis by blast
  next
    case k3
    have "?in" "?others" "?out" "?returns"
      unfolding k3(4) using k3(1-3) by (simp_all add: at oth)
    then show ?thesis by blast
  next
    case b
    have "?in" "?others" "?returns"
      unfolding b(5) using b(1-4) by (simp_all add: at oth)
    moreover have "?out"
      unfolding b(5) using b(4) by auto
    ultimately show ?thesis by blast
  next
    case v
    have nofit: "length d \<noteq> len (store ! a)"
      using v(5) fits [of d e] by blast
    have "?in" "?others" "?returns"
      unfolding v(6) using v(1-4) nofit by (simp_all add: at' oth')
    moreover have "?out"
      unfolding v(6) using v(5) by auto
    ultimately show ?thesis by blast
  next
    case r
    have "?in" "?others" "?returns"
      unfolding r(6) by (simp_all add: at' oth')
    moreover have "?out"
      unfolding r(6) using r(1-5) ne by (simp add: fresh)
    ultimately show ?thesis by blast
  qed
qed

theorem denoising_pipeline_mutates_input_witness:
  "fst (denoising_pipeline (\<lambda>p s a t. Inr [Str ''q'']) NaN
          [\<lparr>index = [7], cols = [(''Peaks'', [Str ''p'']), (''SMILES'', [Str ''CCO'']),
             (''Adducts'', [Str ''[M+H]+''])]\<rparr>] 0 ()) ! 0 =
     \<lparr>index = [7], cols = [(''peaks'', [Str ''p'']), (''smiles'', [Str ''CCO'']),
        (''adducts'', [Str ''[M+H]+''])]\<rparr> \<and>
   snd (denoising_pipeline (\<lambda>p s a t. Inr [Str ''q'']) NaN
          [\<lparr>index = [7], cols = [(''Peaks'', [Str ''p'']), (''SMILES'', [Str ''CCO'']),
             (''Adducts'', [Str ''[M+H]+''])]\<rparr>] 0 ()) = Inr 1 \<and>
   fst (denoising_pipeline (\<lambda>p s a t. Inr [Str ''q'']) NaN
          [\<lparr>index = [7], cols = [(''Peaks'', [Str ''p'']), (''SMILES'', [Str ''CCO'']),
             (''Adducts'', [Str ''[M+H]+''])]\<rparr>] 0 ()) ! 1 =
     \<lparr>index = [7], cols = [(''peaks'', [Str ''p'']), (''smiles'', [Str ''CCO'']),
        (''adducts'', [Str ''[M+H]+'']), (''denoised_peaks'', [Str ''q''])]\<rparr>"
proof -
  let ?df = "\<lparr>index = [7], cols = [(''Peaks'', [Str ''p'']), (''SMILES'', [Str ''CCO'']),
             (''Adducts'', [Str ''[M+H]+''])]\<rparr> :: cell frame"
  let ?low = "\<lparr>index = [7], cols = [(''peaks'', [Str ''p'']), (''smiles'', [Str ''CCO'']),
        (''adducts'', [Str ''[M+H]+''])]\<rparr> :: cell frame"
  let ?out = "\<lparr>index = [7], cols = [(''peaks'', [Str ''p'']), (''smiles'', [Str ''CCO'']),
        (''adducts'', [Str ''[M+H]+'']), (''denoised_peaks'', [Str ''q''])]\<rparr> :: cell frame"
  let ?B = "(\<lambda>p s a t. Inr [Str ''q'']) ::
     cell selection \<Rightarrow> cell selection \<Rightarrow> cell selection \<Rightarrow> unit \<Rightarrow> exn + cell list"
  let ?P = "denoising_pipeline ?B NaN [?df] 0 ()"
  have a: "0 < length [?df]" by simp
  have low: "lower_columns ([?df] ! 0) = ?low" by code_simp
  have gp: "getitem ?low ''peaks'' = Inr (Series [7] [Str ''p''])" by code_simp
  have gs: "getitem ?low ''smiles'' = Inr (Series [7] [Str ''CCO''])" by code_simp
  have ga: "getitem ?low ''adducts'' = Inr (Series [7] [Str ''[M+H]+''])" by code_simp
  have si: "setitem_list NaN ?low ''denoised_peaks'' [Str ''q''] = Inr ?out" by code_simp
  have n: "length [Str ''q''] = len ([?df] ! 0)" by (simp add: len_def)
  note t = denoising_pipeline_mutates_input [OF a, of ?B NaN "()", unfolded low]
  have c1: "fst ?P ! 0 = ?low"
    using t by blast
  have c2: "snd ?P = Inr 1"
  proof -
    have "snd ?P = Inr (length [?df])"
      using t gp gs ga n by blast
    then show ?thesis by simp
  qed
  have c3: "fst ?P ! 1 = ?out"
  proof -
    from t have "case snd ?P of
       Inl e \<Rightarrow> True
     | Inr b \<Rightarrow> (\<exists>peaks smiles adducts denoised_peaks.
            ?B peaks smiles adducts () = Inr denoised_peaks \<and>
            setitem_list NaN ?low ''denoised_peaks'' denoised_peaks = Inr (fst ?P ! b))"
      by (auto split: sum.splits)
    then have "setitem_list NaN ?low ''denoised_peaks'' [Str ''q''] = Inr (fst ?P ! 1)"
      unfolding c2 by auto
    then show ?thesis unfolding si by simp
  qed
  show ?thesis using c1 c2 c3 by blast
qed

subsection \<open>load_file\<close>

text \<open>No step of the load before the last one reports a success.\<close>

lemma new_columns_loop_quiet:
  "filter reports_success (snd (new_columns_loop cs d out)) = filter reports_success out"
  by (induction cs arbitrary: d out) (simp_all add: Let_def split: option.splits)

lemma standardize_columns_quiet: "filter reports_success (snd (standardize_columns df)) = []"
proof (cases "new_columns_loop (columns df) [] []")
  case (Pair d out)
  then have "filter reports_success out = []"
    using new_columns_loop_quiet [of "columns df" "[]" "[]"] by simp
  then show ?thesis using Pair by (simp add: standardize_columns_def)
qed

lemma fill_missing_smiles_quiet: "filter reports_success (fst (fill_missing_smiles df)) = []"
  by (simp add: fill_missing_smiles_def Let_def split: sum.splits selection.splits)

lemma validate_smiles_quiet: "filter reports_success (fst (validate_smiles m r df)) = []"
  by (simp add: validate_smiles_def Let_def split: sum.splits prod.splits)


lemma read_branch_quiet:
  assumes "(case r of
           Inl e \<Rightarrow> (s, Raises e)
         | Inr v \<Rightarrow>
            (case py_len v of
               Inl e \<Rightarrow> (s\<lparr>loaded_data := v\<rparr>, Raises e)
             | Inr n \<Rightarrow> (log_message (m n) (s\<lparr>loaded_data := v\<rparr>), Falls))) = (s1, fl)"
  shows "filter reports_success (trace s1) = filter reports_success (trace s)"
proof (cases r)
  case (Inl e)
  then show ?thesis using assms by simp
next
  case (Inr v)
  show ?thesis
  proof (cases "py_len v")
    case (Inl e)
    then show ?thesis using assms Inr by auto
  next
    case (Inr n)
    then show ?thesis using assms \<open>r = Inr v\<close>
      by (auto simp: log_message_def emit_def)
  qed
qed

lemma load_file_read_quiet:
  assumes "load_file_read w s = (s1, fl)"
  shows "filter reports_success (trace s1) = filter reports_success (trace s)"
proof (cases "file_type s = ''msp''")
  case True
  have eq: "load_file_read w s =
      (case file_io_read_msp w (input_file_path s) of
           Inl e \<Rightarrow> (s, Raises e)
         | Inr v \<Rightarrow>
            (case py_len v of
               Inl e \<Rightarrow> (s\<lparr>loaded_data := v\<rparr>, Raises e)
             | Inr n \<Rightarrow> (log_message (''Successfully loaded MSP file with '' @ str_nat n @ '' spectra'')
                  (s\<lparr>loaded_data := v\<rparr>), Falls)))"
    using True by (simp add: load_file_read_def Let_def split: sum.splits)
  from assms [unfolded eq] show ?thesis by (rule read_branch_quiet)
next
  case False
  note nm = this
  show ?thesis
  proof (cases "file_type s = ''csv''")
    case True
    have eq: "load_file_read w s =
      (case file_io_read_df w (input_file_path s) of
           Inl e \<Rightarrow> (s, Raises e)
         | Inr v \<Rightarrow>
            (case py_len v of
               Inl e \<Rightarrow> (s\<lparr>loaded_data := v\<rparr>, Raises e)
             | Inr n \<Rightarrow> (log_message (''Successfully loaded CSV file with '' @ str_nat n @ '' rows'')
                  (s\<lparr>loaded_data := v\<rparr>), Falls)))"
      using True by (simp add: load_file_read_def Let_def split: sum.splits)
    from assms [unfolded eq] show ?thesis by (rule read_branch_quiet)
  next
    case False
    have "load_file_read w s = (s, Falls)"
      using nm False by (simp add: load_file_read_def Let_def split: sum.splits)
    then show ?thesis using assms by simp
  qed
qed



lemma load_file_required_missing:
  assumes "filter (\<lambda>col. col \<notin> set (columns df)) required_columns \<noteq> []"
  shows "load_file_required df s =
     (s\<lparr>loaded_data := None,
        trace := trace s @
          [Log (''Validation failed: Missing columns '' @
                repr_list (filter (\<lambda>col. col \<notin> set (columns df)) required_columns)),
           ShowError ''Invalid File Format''
             (''Missing required columns: '' @
              join '', '' (filter (\<lambda>col. col \<notin> set (columns df)) required_columns) @
              [CHR 0x0A, CHR 0x0A] @ ''Available columns: '' @ join '', '' (columns df) @
              [CHR 0x0A, CHR 0x0A] @ ''Please select a file with '' @ quoted ''peaks'' @ '', '' @
              quoted ''smiles'' @ '', and '' @ quoted ''adducts'' @ '' columns.'')]\<rparr>,
      Returns)"
  using assms
  by (simp add: load_file_required_def Let_def log_message_def emit_def)

text \<open>
  C5. When the file has been read into a frame, the columns standardized, the SMILES
  filled and validated (no step raising, the user not declining), and one of the
  required columns \<open>peaks\<close>, \<open>smiles\<close>, \<open>adducts\<close> is absent from the frame, then
  \<open>load_file\<close> returns with \<open>loaded_data\<close> set to \<open>None\<close>, the last thing shown is the
  error dialog \<open>Invalid File Format\<close> whose text starts with the missing columns, and no
  success is reported.
\<close>

theorem load_file_missing_columns:
  assumes path: "input_file_path s \<noteq> []" "os_path_exists w (input_file_path s)"
    and rd: "load_file_read w (log_message (''Loading file: '' @ input_file_path s) s) = (s1, Falls)"
    and ld: "loaded_data s1 = Some df0"
    and fill: "snd (fill_missing_smiles (fst (standardize_columns df0))) = Inr df2"
    and val: "snd (validate_smiles (Chem_MolFromSmiles w) (messagebox_askyesno w) df2) = Inr (Some df)"
    and miss: "\<exists>col \<in> set required_columns. col \<notin> set (columns df)"
  shows "snd (load_file w s) = None \<and>
     loaded_data (fst (load_file w s)) = None \<and>
     (\<exists>before rest. trace (fst (load_file w s)) =
        before @ [ShowError ''Invalid File Format''
          (''Missing required columns: '' @
           join '', '' (filter (\<lambda>col. col \<notin> set (columns df)) required_columns) @ rest)]) \<and>
     filter reports_success (trace (fst (load_file w s))) = filter reports_success (trace s)"
proof -
  let ?missing = "filter (\<lambda>col. col \<notin> set (columns df)) required_columns"
  obtain df1 o1 where st: "standardize_columns df0 = (df1, o1)"
    by (cases "standardize_columns df0")
  obtain o2 where fl: "fill_missing_smiles df1 = (o2, Inr df2)"
    using fill st by (cases "fill_missing_smiles df1") simp
  obtain o3 where vl:
    "validate_smiles (Chem_MolFromSmiles w) (messagebox_askyesno w) df2 = (o3, Inr (Some df))"
    using val by (cases "validate_smiles (Chem_MolFromSmiles w) (messagebox_askyesno w) df2") simp
  have q1: "filter reports_success o1 = []"
    using standardize_columns_quiet [of df0] st by simp
  have q2: "filter reports_success o2 = []"
    using fill_missing_smiles_quiet [of df1] fl by simp
  have q3: "filter reports_success o3 = []"
    using validate_smiles_quiet [of "Chem_MolFromSmiles w" "messagebox_askyesno w" df2] vl by simp
  define s2 where "s2 = s1\<lparr>trace := trace s1 @ o1 @ o2 @ o3, loaded_data := Some df\<rparr>"
  have fr: "load_file_frame w s1 = load_file_required df s2"
    by (simp add: load_file_frame_def ld st fl vl s2_def emit_def)
  have m: "?missing \<noteq> []"
    using miss by (simp add: filter_empty_conv)
  define rest where "rest = [CHR 0x0A, CHR 0x0A] @ ''Available columns: '' @ join '', '' (columns df) @
              [CHR 0x0A, CHR 0x0A] @ ''Please select a file with '' @ quoted ''peaks'' @ '', '' @
              quoted ''smiles'' @ '', and '' @ quoted ''adducts'' @ '' columns.''"
  have rq: "load_file_required df s2 =
      (s2\<lparr>loaded_data := None,
          trace := trace s2 @
            [Log (''Validation failed: Missing columns '' @ repr_list ?missing),
             ShowError ''Invalid File Format''
               (''Missing required columns: '' @ join '', '' ?missing @ rest)]\<rparr>,
       Returns)" (is "_ = (?s3, Returns)")
    unfolding rest_def by (rule load_file_required_missing [OF m])
  have body: "load_file_try w s = (?s3, Returns)"
    unfolding load_file_try_def Let_def rd prod.case flow.case fr rq ..
  have lf: "load_file w s = (?s3, None)"
    using path by (simp add: load_file_def body)
  have t1: "filter reports_success (trace s1) = filter reports_success (trace s)"
    using load_file_read_quiet [OF rd] by (simp add: log_message_def emit_def)
  have t3: "filter reports_success (trace ?s3) = filter reports_success (trace s)"
    using t1 q1 q2 q3 by (simp add: s2_def)
  have last: "\<exists>before rest. trace ?s3 =
        before @ [ShowError ''Invalid File Format''
          (''Missing required columns: '' @ join '', '' ?missing @ rest)]"
    by (rule exI [of _ "trace s2 @ [Log (''Validation failed: Missing columns '' @ repr_list ?missing)]"],
        rule exI [of _ rest]) simp
  show ?thesis
    unfolding lf fst_conv snd_conv using t3 last by simp
qed



theorem load_file_missing_columns_witness:
  "snd (load_file example_env example_gui) = None \<and>
   loaded_data (fst (load_file example_env example_gui)) = None \<and>
   filter reports_success (trace (fst (load_file example_env example_gui))) = []"
proof -
  let ?s0 = "log_message (''Loading file: '' @ input_file_path example_gui) example_gui"
  let ?df = "\<lparr>index = [0], cols = [(''peaks'', [Str ''p'']), (''smiles'', [Str ''CCO''])]\<rparr> :: cell frame"
  have p1: "input_file_path example_gui \<noteq> []" by code_simp
  have p2: "os_path_exists example_env (input_file_path example_gui)" by code_simp
  have "snd (load_file_read example_env ?s0) = Falls" by code_simp
  then have rd: "load_file_read example_env ?s0 = (fst (load_file_read example_env ?s0), Falls)"
    by (metis prod.collapse)
  have ld: "loaded_data (fst (load_file_read example_env ?s0)) = Some example_frame" by code_simp
  have fl: "snd (fill_missing_smiles (fst (standardize_columns example_frame))) = Inr ?df"
    by code_simp
  have vl: "snd (validate_smiles (Chem_MolFromSmiles example_env)
      (messagebox_askyesno example_env) ?df) = Inr (Some ?df)"
    by code_simp
  have ms: "\<exists>col \<in> set required_columns. col \<notin> set (columns ?df)"
    by code_simp
  have t: "filter reports_success (trace example_gui) = []" by code_simp
  show ?thesis
    using load_file_missing_columns [OF p1 p2 rd ld fl vl ms] t by simp
qed

subsection \<open>The exception handlers\<close>













subsection \<open>process_data and the threads\<close>

text \<open>
  No code of the window but \<open>process_data\<close> calls \<open>start()\<close>: the starts in the trace
  are the same before and after each of the other handlers, and before and after
  the body of the thread.
\<close>

lemma started_append: "started (xs @ ys) = started xs @ started ys"
  by (induction xs rule: started.induct) simp_all












lemma process_data_thread_try_starts:
  "started (trace (fst (process_data_thread_try w s))) = started (trace s)"
  by (simp add: process_data_thread_try_def Let_def log_message_def emit_def started_append
      split: sum.splits option.splits prod.splits flow.splits)

lemma process_data_thread_starts:
  "started (trace (fst (process_data_thread w s))) = started (trace s)"
proof -
  obtain s1 fl where tr: "process_data_thread_try w s = (s1, fl)"
    by (cases "process_data_thread_try w s")
  have t: "started (trace s1) = started (trace s)"
    using process_data_thread_try_starts [of w s] tr by simp
  show ?thesis
    by (cases fl)
       (simp_all add: process_data_thread_def tr t process_data_thread_except_def Let_def
          log_message_def emit_def started_append)
qed

lemma run_target_starts: "started (trace (fst (run_target w tg s))) = started (trace s)"
  by (cases tg) (simp add: process_data_thread_starts)


























subsection \<open>head_to_tail_plot\<close>

text \<open>
  C10 (as amended). The function returns 0 at line 84 exactly when \<open>msms1\<close> or \<open>msms2\<close>
  is the type object \<open>float\<close> itself (and \<open>float(pmz)\<close> has not raised before). For
  every other argument, a float among them, the guard is false and the branch is not
  taken.
\<close>

theorem head_to_tail_plot_guard_Return0:
  "head_to_tail_plot_guard py_float msms1 msms2 pmz = Return0 \<longleftrightarrow>
     (msms1 = FloatType \<or> msms2 = FloatType) \<and>
     (case pmz of StrVal t \<Rightarrow> (case py_float t of Inl e \<Rightarrow> False | Inr f \<Rightarrow> True) | other \<Rightarrow> True)"
  by (auto simp: head_to_tail_plot_guard_def is_float_type_def split: pyobj.splits sum.splits)

theorem head_to_tail_plot_guard_Return0_witness:
  "head_to_tail_plot_guard (\<lambda>t. Inr (0::int)) (FloatVal 1) (StrVal ''[[1, 2]]'') NoneVal \<noteq> Return0"
  using head_to_tail_plot_guard_Return0 [of "\<lambda>t. Inr (0::int)" "FloatVal 1" "StrVal ''[[1, 2]]''" NoneVal]
  by simp

text \<open>
  C10 as stated fails: the guard holds for an argument, the type object itself.
\<close>

theorem head_to_tail_plot_guard_float_type:
  "head_to_tail_plot_guard (\<lambda>t. Inr (0::int)) FloatType (ArrayVal [(1, 2)]) NoneVal = Return0"
  by (simp add: head_to_tail_plot_guard_def is_float_type_def)

subsection \<open>validate_smiles\<close>

text \<open>The positions the loop collects are those of the cells that are not valid.\<close>

lemma invalid_loop_fst:
  "fst (invalid_loop m k xs ii ss) =
     ii @ map fst (filter (\<lambda>(i, c). \<not> spec_valid m c) (zip [k ..< k + length xs] xs))"
proof (induction xs arbitrary: k ii ss)
  case Nil
  show ?case by simp
next
  case (Cons x xs)
  have z: "zip [k ..< k + length (x # xs)] (x # xs) = (k, x) # zip [Suc k ..< Suc k + length xs] xs"
  proof -
    have "[k ..< k + length (x # xs)] = k # [Suc k ..< Suc k + length xs]"
      by (simp add: upt_conv_Cons del: upt_Suc)
    then show ?thesis by simp
  qed
  show ?case
    unfolding z using Cons.IH [of "Suc k"]
    by (simp add: spec_valid_def)
qed

lemma validate_smiles_snd:
  assumes "getitem df ''smiles'' = Inr sel" and "''smiles'' \<in> set (columns df)"
  shows "snd (validate_smiles m r df) =
     (let invalid_indices = fst (invalid_loop m 0 (iterate sel) [] []) in
      if invalid_indices = [] then Inr (Some df)
      else if \<not> r then Inr None
      else (case index_take (index df) invalid_indices of
              Inl e \<Rightarrow> Inl e
            | Inr labels \<Rightarrow> Inr (Some (reset_index (drop_rows df labels)))))"
  using assms
  by (simp add: validate_smiles_def Let_def split: prod.splits sum.splits)

lemma keep_rows_by_position:
  assumes "length idx = length xs" and "length xs = length ys"
    and "\<forall>j < length xs. (idx ! j \<in> set labels) = (\<not> P (xs ! j))"
  shows "keep_rows idx labels ys = map snd (filter (\<lambda>(c, y). P c) (zip xs ys))"
  using assms
proof (induction idx xs ys rule: list_induct3)
  case Nil
  show ?case by (simp add: keep_rows_def)
next
  case (Cons l idx x xs y ys)
  have tl: "\<forall>j < length xs. (idx ! j \<in> set labels) = (\<not> P (xs ! j))"
    using Cons.prems by auto
  have hd: "(l \<in> set labels) = (\<not> P x)"
    using Cons.prems by auto
  show ?case
    using Cons.IH [OF tl] hd by (simp add: keep_rows_def)
qed

lemma length_filter_zip:
  "length xs = length ys \<Longrightarrow>
     length (filter (\<lambda>(c, y). P c) (zip xs ys)) = length (filter P xs)"
  by (induction xs ys rule: list_induct2) simp_all

lemma invalid_positions_set:
  "set (map fst (filter (\<lambda>(i, c). \<not> P c) (zip [0 ..< length xs] xs))) =
     {i. i < length xs \<and> \<not> P (xs ! i)}"
proof -
  have "zip [0 ..< length xs] xs = map (\<lambda>i. (i, xs ! i)) [0 ..< length xs]"
    by (rule nth_equalityI) auto
  then show ?thesis by (auto simp: image_iff)
qed

lemma index_take_in_range:
  assumes "\<forall>p \<in> set positions. p < length idx"
  shows "index_take idx positions = Inr (map (\<lambda>p. idx ! p) positions)"
proof -
  have "filter (\<lambda>p. length idx \<le> p) positions = []"
    using assms by (auto simp: filter_empty_conv)
  then show ?thesis by (simp add: index_take_def)
qed

lemma mem_map_nth: "(x \<in> set (map (\<lambda>p. idx ! p) pos)) = (\<exists>i \<in> set pos. idx ! i = x)"
  by auto

lemma reset_index_drop_rows:
  "reset_index (drop_rows df labels) =
     df\<lparr>index := map int [0 ..< length (keep_rows (index df) labels (index df))],
        cols := map (\<lambda>(c, ys). (c, keep_rows (index df) labels ys)) (cols df)\<rparr>"
  by (simp add: reset_index_def drop_rows_def len_def)

text \<open>
  Where the frame has one column \<open>smiles\<close>, distinct index labels and columns of the
  frame's length, \<open>validate_smiles\<close> does what is expected of it: with every SMILES
  valid it returns the frame as it is; otherwise it returns \<open>None\<close> when the user
  declines, and else the frame with exactly the rows of the valid SMILES, in order,
  numbered from 0.
\<close>

lemma validate_smiles_distinct_index:
  assumes one: "filter (\<lambda>(c, ys). c = ''smiles'') (cols df) = [(''smiles'', xs)]"
    and dist: "distinct (index df)"
    and wf: "\<forall>(c, ys) \<in> set (cols df). length ys = len df"
  shows "snd (validate_smiles m r df) =
     (if \<forall>c \<in> set xs. spec_valid m c then Inr (Some df)
      else if \<not> r then Inr None
      else Inr (Some (df\<lparr>index := map int [0 ..< length (filter (spec_valid m) xs)],
              cols := map (\<lambda>(c, ys). (c, map snd (filter (\<lambda>(x, y). spec_valid m x) (zip xs ys))))
                        (cols df)\<rparr>)))"
proof -
  let ?P = "spec_valid m"
  define pos where "pos = map fst (filter (\<lambda>(i, c). \<not> ?P c) (zip [0 ..< length xs] xs))"
  define labels where "labels = map (\<lambda>p. index df ! p) pos"
  have mem: "(''smiles'', xs) \<in> set (cols df)"
  proof -
    have "(''smiles'', xs) \<in> set (filter (\<lambda>(c, ys). c = ''smiles'') (cols df))"
      by (simp add: one)
    then show ?thesis by simp
  qed
  then have nm: "''smiles'' \<in> set (columns df)"
    by (force simp: columns_def)
  have lx: "length xs = length (index df)"
    using wf mem by (auto simp: len_def)
  have gi: "getitem df ''smiles'' = Inr (Series (index df) xs)"
    by (simp add: getitem_def one)
  have ii: "fst (invalid_loop m 0 (iterate (Series (index df) xs)) [] []) = pos"
    using invalid_loop_fst [of m 0 xs "[]" "[]"] by (simp add: iterate_def pos_def)
  have pset: "set pos = {i. i < length xs \<and> \<not> ?P (xs ! i)}"
    unfolding pos_def by (rule invalid_positions_set)
  have empty: "pos = [] \<longleftrightarrow> (\<forall>c \<in> set xs. ?P c)"
  proof -
    have "pos = [] \<longleftrightarrow> set pos = {}" by (simp only: set_empty)
    also have "\<dots> \<longleftrightarrow> (\<forall>i < length xs. ?P (xs ! i))" unfolding pset by auto
    also have "\<dots> \<longleftrightarrow> (\<forall>c \<in> set xs. ?P c)" by (metis in_set_conv_nth)
    finally show ?thesis .
  qed
  have it: "index_take (index df) pos = Inr labels"
    unfolding labels_def by (rule index_take_in_range) (use pset lx in auto)
  have lab: "\<forall>j < length xs. (index df ! j \<in> set labels) = (\<not> ?P (xs ! j))"
  proof (intro allI impI)
    fix j assume j: "j < length xs"
    have "index df ! j \<in> set labels \<longleftrightarrow> (\<exists>i \<in> set pos. index df ! i = index df ! j)"
      unfolding labels_def by (rule mem_map_nth)
    also have "\<dots> \<longleftrightarrow> (\<exists>i. i < length xs \<and> \<not> ?P (xs ! i) \<and> index df ! i = index df ! j)"
      unfolding pset by auto
    also have "\<dots> \<longleftrightarrow> \<not> ?P (xs ! j)"
      using j lx dist by (auto simp: nth_eq_iff_index_eq)
    finally show "(index df ! j \<in> set labels) = (\<not> ?P (xs ! j))" .
  qed
  have keep: "length ys = len df \<Longrightarrow>
      keep_rows (index df) labels ys = map snd (filter (\<lambda>(c, y). ?P c) (zip xs ys))" for ys :: "'b list"
    using keep_rows_by_position [of "index df" xs ys labels ?P] lx lab by (simp add: len_def)
  have kidx: "length (keep_rows (index df) labels (index df)) = length (filter ?P xs)"
    using keep [of "index df"] lx by (simp add: len_def length_filter_zip)
  have kcols: "map (\<lambda>(c, ys). (c, keep_rows (index df) labels ys)) (cols df) =
      map (\<lambda>(c, ys). (c, map snd (filter (\<lambda>(x, y). ?P x) (zip xs ys)))) (cols df)"
    by (rule map_cong) (use wf keep in auto)
  have res: "reset_index (drop_rows df labels) =
      df\<lparr>index := map int [0 ..< length (filter ?P xs)],
         cols := map (\<lambda>(c, ys). (c, map snd (filter (\<lambda>(x, y). ?P x) (zip xs ys)))) (cols df)\<rparr>"
    by (simp only: reset_index_drop_rows kidx kcols)
  show ?thesis
    unfolding validate_smiles_snd [OF gi nm] Let_def ii
    by (simp add: empty it res)
qed

lemma validate_smiles_no_smiles_column:
  "''smiles'' \<notin> set (columns df) \<Longrightarrow> validate_smiles m r df = ([], Inr (Some df))"
  by (simp add: validate_smiles_def)

text \<open>
  C3, at a frame in which two rows carry the same index label: the first row has a
  valid SMILES and the second has none. The user answers yes. \<open>df.drop\<close> removes by
  label, so both rows go, while the log counts one row dropped.
\<close>

theorem validate_smiles_duplicate_index_labels:
  "validate_smiles (\<lambda>t. if t = ''CCO'' then Some () else None) True
     \<lparr>index = [0, 0],
      cols = [(''smiles'', [Str ''CCO'', NaN]), (''peaks'', [Str ''a'', Str ''b''])]\<rparr> =
   ([Log ''Validating SMILES structures...'',
     Log ''SMILES validation: 1/2 valid, 1 invalid'',
     Log (''Invalid SMILES examples: '' @ quoted ''(missing)''),
     AskYesNo ''Invalid SMILES Detected''
       (''Found 1 invalid SMILES out of 2 entries.'' @ [CHR 0x0A, CHR 0x0A] @
        ''Examples: '' @ quoted ''(missing)'' @ [CHR 0x0A, CHR 0x0A] @
        ''Do you want to continue anyway?'' @ [CHR 0x0A] @
        ''(Invalid entries will be removed from processing)''),
     Log ''Dropped 1 rows with invalid SMILES'',
     Log ''Remaining rows: 0''],
    Inr (Some \<lparr>index = [], cols = [(''smiles'', []), (''peaks'', [])]\<rparr>))"
  by code_simp


text \<open>
  Where two columns are labelled \<open>smiles\<close> (as \<open>standardize_columns\<close> leaves a file with
  the columns \<open>SMILES\<close> and \<open>smile\<close>), the loop runs over the two labels and not over
  the cells: with RDKit rejecting the text \<open>smiles\<close>, positions 0 and 1 count as
  invalid and the first two rows are dropped, whatever their SMILES.
\<close>

lemma validate_smiles_duplicate_smiles_columns:
  "snd (validate_smiles (\<lambda>t. if t = ''CCO'' then Some () else None) True
     \<lparr>index = [0, 1],
      cols = [(''smiles'', [Str ''CCO'', Str ''CCO'']), (''smiles'', [Str ''CCO'', Str ''CCO''])]\<rparr>) =
   Inr (Some \<lparr>index = [], cols = [(''smiles'', []), (''smiles'', [])]\<rparr>)"
  by code_simp

end
